theory Spec2Isabelle
  imports Main "HOL-Library.Word"
begin

section \<open>Data model of the billing package\<close>

text \<open>
  The Go types \<open>LineItemStatus\<close>, \<open>BillStatus\<close> and \<open>currency.Currency\<close> are
  defined string types: any string is a value of them, the named constants are
  particular strings.  They are modelled as strings, so that a caller-supplied status
  that is none of the constants (for instance the zero value, the empty string) is a
  value of the model too.  \<open>int64\<close> is a 64-bit word: \<open>+\<close> and \<open>-\<close> wrap around as
  Go's do, \<open>sint\<close> reads the signed value that Go's comparisons use.
\<close>

type_synonym LineItemStatus = string
type_synonym BillStatus = string
type_synonym Currency = string
type_synonym int64 = "64 word"

definition ItemPending :: LineItemStatus where "ItemPending = ''PENDING''"
definition ItemCharged :: LineItemStatus where "ItemCharged = ''CHARGED''"
definition ItemFailed :: LineItemStatus where "ItemFailed = ''FAILED''"
definition ItemCanceled :: LineItemStatus where "ItemCanceled = ''CANCELED''"
definition ItemRefunded :: LineItemStatus where "ItemRefunded = ''REFUNDED''"

definition BillOpen :: BillStatus where "BillOpen = ''OPEN''"
definition BillCharging :: BillStatus where "BillCharging = ''CHARGING''"
definition BillSettled :: BillStatus where "BillSettled = ''SETTLED''"
definition BillCanceled :: BillStatus where "BillCanceled = ''CANCELED''"
definition BillExpired :: BillStatus where "BillExpired = ''EXPIRED''"
definition BillFailed :: BillStatus where "BillFailed = ''FAILED''"
definition BillCompensated :: BillStatus where "BillCompensated = ''COMPENSATED''"

text \<open>
  \<open>type LineItem struct { ID, Name string; Amount int64; Status LineItemStatus }\<close> and
  \<open>type Bill struct { ID string; Status BillStatus; Currency currency.Currency;
  Items []LineItem; Total int64 }\<close>.  The fields \<open>ID\<close> and \<open>Status\<close> of \<open>Bill\<close> are
  written \<open>BillID\<close> and \<open>BStatus\<close>, since a field name belongs to one record.
  The repository holds two texts of \<open>billing.go\<close>: in \<open>src/billing/billing.go\<close> the
  struct \<open>Bill\<close> has the fields \<open>Status\<close>, \<open>Items\<close> and \<open>Total\<close>, in the later text
  (\<open>src/unnamed/part_002\<close>) it has \<open>ID\<close> and \<open>Currency\<close> as well; the methods are the same
  in both and touch neither of the two added fields.
\<close>

record LineItem =
  ID :: string
  Name :: string
  Amount :: int64
  Status :: LineItemStatus

record Bill =
  BillID :: string
  BStatus :: BillStatus
  Currency :: Currency
  Items :: "LineItem list"
  Total :: int64

text \<open>
  The package's error values: three fixed errors and \<open>ErrDuplicateItem\<close>, a function of
  the offending identifier.
\<close>

datatype BillError =
  ErrBillNotOpen
| ErrCannotCancel
| ErrNoPendingItems
| ErrDuplicateItem string

fun error_text :: "BillError \<Rightarrow> string" where
  "error_text ErrBillNotOpen = ''bill is not open''"
| "error_text ErrCannotCancel = ''cannot cancel bill in current state''"
| "error_text ErrNoPendingItems = ''no pending items to charge''"
| "error_text (ErrDuplicateItem i) = ''item '' @ i @ '' already exists''"

section \<open>The bill aggregate\<close>

text \<open>
  Every method has a pointer receiver and mutates the bill in place; the model takes
  the bill and returns the error (\<open>None\<close> for Go's \<open>nil\<close>) together with the bill as the
  call leaves it, so that what an erroring call does to the bill is a fact to be
  proved, not a consequence of the result type.
\<close>

text \<open>The scan \<open>for _, it := range b.Items { if it.ID == li.ID { return ... } }\<close>.\<close>

primrec id_present :: "string \<Rightarrow> LineItem list \<Rightarrow> bool" where
  "id_present i [] = False"
| "id_present i (it # its) = (if ID it = i then True else id_present i its)"

definition AddItem :: "LineItem \<Rightarrow> Bill \<Rightarrow> BillError option \<times> Bill" where
  "AddItem li b =
     (if BStatus b \<noteq> BillOpen then (Some ErrBillNotOpen, b)
      else if id_present (ID li) (Items b) then (Some (ErrDuplicateItem (ID li)), b)
      else (None, b\<lparr>Items := Items b @ [li\<lparr>Status := ItemPending\<rparr>],
                     Total := Total b + Amount li\<rparr>))"

text \<open>\<open>PendingCount\<close>: the counting loop over the items.\<close>

primrec count_pending :: "LineItem list \<Rightarrow> nat" where
  "count_pending [] = 0"
| "count_pending (it # its) =
     (if Status it = ItemPending then Suc (count_pending its) else count_pending its)"

definition PendingCount :: "Bill \<Rightarrow> nat" where
  "PendingCount b = count_pending (Items b)"

definition BeginCharge :: "Bill \<Rightarrow> BillError option \<times> Bill" where
  "BeginCharge b =
     (if BStatus b \<noteq> BillOpen then (Some ErrBillNotOpen, b)
      else if PendingCount b = 0 then (Some ErrNoPendingItems, b)
      else (None, b\<lparr>BStatus := BillCharging\<rparr>))"

text \<open>
  The loop shared by \<open>Cancel\<close> and \<open>Expire\<close>:
  \<open>for i := range b.Items { if b.Items[i].Status == ItemPending { b.Items[i].Status = ItemCanceled } }\<close>.
\<close>

primrec cancel_pending :: "LineItem list \<Rightarrow> LineItem list" where
  "cancel_pending [] = []"
| "cancel_pending (it # its) =
     (if Status it = ItemPending then it\<lparr>Status := ItemCanceled\<rparr> else it) # cancel_pending its"

definition Cancel :: "Bill \<Rightarrow> BillError option \<times> Bill" where
  "Cancel b =
     (if BStatus b \<noteq> BillOpen then (Some ErrCannotCancel, b)
      else (None, b\<lparr>BStatus := BillCanceled, Items := cancel_pending (Items b)\<rparr>))"

definition Expire :: "Bill \<Rightarrow> Bill" where
  "Expire b = b\<lparr>BStatus := BillExpired, Items := cancel_pending (Items b)\<rparr>"

section \<open>Activities and their outcomes\<close>

text \<open>
  The workflow starts three kinds of activities.  An activity runs outside the workflow,
  under the retry policy of the activity options (initial interval 3s, coefficient 2.0,
  maximum interval one minute, at most 5 attempts); the workflow sees one result per
  \<open>ExecuteActivity(...).Get\<close>, the error or \<open>nil\<close> that remains when the policy is
  exhausted.  That result is an input of the model: \<open>Env\<close> says, for each activity the
  workflow starts, whether \<open>Get\<close> returns an error.  The index is the position of the
  item in \<open>bill.Items\<close>.
\<close>

datatype Activity =
  ChargeLineItemActivity LineItem
| RefundLineItemActivity LineItem
| CreditAccountActivity int64 Currency

record Env =
  set_query_handler_error :: "string option"
  charge_error :: "nat \<Rightarrow> LineItem \<Rightarrow> bool"
  refund_error :: "nat \<Rightarrow> LineItem \<Rightarrow> bool"
  credit_error :: "int64 \<Rightarrow> Currency \<Rightarrow> bool"

text \<open>
  What the workflow function returns: \<open>temporal.NewApplicationError(message, type,
  details)\<close>, \<open>temporal.NewNonRetryableApplicationError\<close> (the same with the
  non-retryable flag), or the error of \<open>SetQueryHandler\<close>.
\<close>

datatype WorkflowError =
  ApplicationError (err_message: string) (err_type: string) (err_details: "string list")
    (non_retryable: bool)
| QueryHandlerError string

text \<open>
  A finished run: the bill as the query handler reports it from then on, the returned
  error, and the activities started, each with the outcome the workflow received, in
  the order the workflow started them.
\<close>

record Outcome =
  final_bill :: Bill
  error :: "WorkflowError option"
  calls :: "(Activity \<times> bool) list"

subsection \<open>Formatting of the error messages\<close>

fun show_nat :: "nat \<Rightarrow> string" where
  "show_nat n =
     (if n < 10 then [''0123456789'' ! n]
      else show_nat (n div 10) @ [''0123456789'' ! (n mod 10)])"

text \<open>Go prints a \<open>[]string\<close> under \<open>%v\<close> as its elements between brackets, separated by spaces.\<close>

fun join_spaces :: "string list \<Rightarrow> string" where
  "join_spaces [] = []"
| "join_spaces [x] = x"
| "join_spaces (x # y # ys) = x @ '' '' @ join_spaces (y # ys)"

definition show_strings :: "string list \<Rightarrow> string" where
  "show_strings xs = ''['' @ join_spaces xs @ '']''"

section \<open>The event loop of the workflow\<close>

text \<open>
  \<open>for bill.Status == BillOpen { selector. ... ; selector.Select(ctx) }\<close>.  One call of
  \<open>Select\<close> waits until one of the registered sources is ready (the three signal
  channels and the timer future) and runs the callback of one ready source.  Which
  source is served by each call is decided outside the workflow; the model takes the
  sequence of served sources as input and makes no assumption on it: the timer may
  appear anywhere in it, also after \<open>cancelTimer()\<close>.  The signal payload of
  \<open>AddLineItem\<close> is decoded into a \<open>LineItem\<close>, caller-chosen \<open>Status\<close> included.
  The calls of the logger are left out.
\<close>

datatype Stimulus =
  AddLineItemSignal LineItem
| ChargeBillSignal
| CancelBillSignal
| TimerFired

text \<open>What a callback did, in order: the aggregate method it called, and \<open>cancelTimer()\<close>.\<close>

datatype LoopAction =
  CalledAddItem LineItem
| CalledBeginCharge
| CalledCancel
| CalledExpire
| CalledCancelTimer

record LoopState =
  bill :: Bill
  timer_canceled :: bool
  actions :: "LoopAction list"

text \<open>The four callbacks.  An error of the aggregate is logged and the callback returns.\<close>

fun handle :: "Stimulus \<Rightarrow> LoopState \<Rightarrow> LoopState" where
  "handle (AddLineItemSignal li) s =
     (case AddItem li (bill s) of
        (err, b') \<Rightarrow> s\<lparr>bill := b', actions := actions s @ [CalledAddItem li]\<rparr>)"
| "handle ChargeBillSignal s =
     (case BeginCharge (bill s) of
        (Some e, b') \<Rightarrow> s\<lparr>bill := b', actions := actions s @ [CalledBeginCharge]\<rparr>
      | (None, b') \<Rightarrow> s\<lparr>bill := b', timer_canceled := True,
                         actions := actions s @ [CalledBeginCharge, CalledCancelTimer]\<rparr>)"
| "handle CancelBillSignal s =
     (case Cancel (bill s) of
        (Some e, b') \<Rightarrow> s\<lparr>bill := b', actions := actions s @ [CalledCancel]\<rparr>
      | (None, b') \<Rightarrow> s\<lparr>bill := b', timer_canceled := True,
                         actions := actions s @ [CalledCancel, CalledCancelTimer]\<rparr>)"
| "handle TimerFired s =
     s\<lparr>bill := Expire (bill s), actions := actions s @ [CalledExpire]\<rparr>"

text \<open>
  The loop.  \<open>None\<close>: the sources served so far have left the bill open and the workflow
  is still blocked in \<open>Select\<close>.
\<close>

fun event_loop :: "Stimulus list \<Rightarrow> LoopState \<Rightarrow> LoopState option" where
  "event_loop [] s = (if BStatus (bill s) = BillOpen then None else Some s)"
| "event_loop (x # xs) s =
     (if BStatus (bill s) = BillOpen then event_loop xs (handle x s) else Some s)"

text \<open>The states at the head of the loop, one per evaluation of the loop condition.\<close>

fun loop_states :: "Stimulus list \<Rightarrow> LoopState \<Rightarrow> LoopState list" where
  "loop_states [] s = [s]"
| "loop_states (x # xs) s =
     (if BStatus (bill s) = BillOpen then s # loop_states xs (handle x s) else [s])"

text \<open>\<open>bill := &Bill{ID: billID, Status: BillOpen, Currency: cur}\<close> and the state before the loop.\<close>

definition new_bill :: "string \<Rightarrow> Currency \<Rightarrow> Bill" where
  "new_bill billID cur =
     \<lparr>BillID = billID, BStatus = BillOpen, Currency = cur, Items = [], Total = 0\<rparr>"

definition initial_state :: "string \<Rightarrow> Currency \<Rightarrow> LoopState" where
  "initial_state billID cur =
     \<lparr>bill = new_bill billID cur, timer_canceled = False, actions = []\<rparr>"

section \<open>Charging, resolution and compensation\<close>

text \<open>
  Step 1, the fan-out: one coroutine per item whose status is Pending, each executing
  \<open>ChargeLineItemActivity\<close> on a copy of its item and writing Failed or Charged into
  its own item; \<open>chargeWG.Wait\<close> joins them.  The coroutines share nothing but the
  slice, each writes one element of it, so the items after the join do not depend on
  the interleaving; the calls are listed in item order.
\<close>

fun charged_items :: "Env \<Rightarrow> nat \<Rightarrow> LineItem list \<Rightarrow> LineItem list" where
  "charged_items env i [] = []"
| "charged_items env i (it # its) =
     (if Status it \<noteq> ItemPending then it
      else if charge_error env i it then it\<lparr>Status := ItemFailed\<rparr>
      else it\<lparr>Status := ItemCharged\<rparr>) # charged_items env (Suc i) its"

fun charge_calls :: "Env \<Rightarrow> nat \<Rightarrow> LineItem list \<Rightarrow> (Activity \<times> bool) list" where
  "charge_calls env i [] = []"
| "charge_calls env i (it # its) =
     (if Status it \<noteq> ItemPending then charge_calls env (Suc i) its
      else (ChargeLineItemActivity it, charge_error env i it) # charge_calls env (Suc i) its)"

definition charge_fanout :: "Env \<Rightarrow> Bill \<Rightarrow> Bill" where
  "charge_fanout env b = b\<lparr>Items := charged_items env 0 (Items b)\<rparr>"

text \<open>Step 2: \<open>failedCount\<close>, the number of items whose status is Failed.\<close>

primrec count_failed :: "LineItem list \<Rightarrow> nat" where
  "count_failed [] = 0"
| "count_failed (it # its) =
     (if Status it = ItemFailed then Suc (count_failed its) else count_failed its)"

text \<open>
  The refund fan-out of the default branch: one coroutine per item whose status is
  Charged; the result of \<open>RefundLineItemActivity\<close> is discarded and the item becomes
  Refunded.  \<open>refundedCount\<close> is the number of those coroutines.
\<close>

fun refunded_items :: "LineItem list \<Rightarrow> LineItem list" where
  "refunded_items [] = []"
| "refunded_items (it # its) =
     (if Status it = ItemCharged then it\<lparr>Status := ItemRefunded\<rparr> else it) # refunded_items its"

fun refund_calls :: "Env \<Rightarrow> nat \<Rightarrow> LineItem list \<Rightarrow> (Activity \<times> bool) list" where
  "refund_calls env i [] = []"
| "refund_calls env i (it # its) =
     (if Status it = ItemCharged
      then (RefundLineItemActivity it, refund_error env i it) # refund_calls env (Suc i) its
      else refund_calls env (Suc i) its)"

text \<open>The loop collecting \<open>failedIDs\<close> in the default branch.\<close>

primrec failed_ids :: "LineItem list \<Rightarrow> string list" where
  "failed_ids [] = []"
| "failed_ids (it # its) =
     (if Status it = ItemFailed then ID it # failed_ids its else failed_ids its)"

text \<open>
  Step 3, the \<open>switch\<close> on \<open>failedCount\<close>.  The first case repeats its own condition in
  an \<open>if\<close>; were that \<open>if\<close> false, control would leave the switch and the function
  would return \<open>nil\<close>.  In the second case the result of \<open>CreditAccountActivity\<close> is
  discarded (\<open>_ = ...Get(ctx, nil)\<close>).
\<close>

definition resolve :: "Env \<Rightarrow> Bill \<Rightarrow> Outcome" where
  "resolve env b =
     (let failedCount = count_failed (Items b); totalItems = length (Items b) in
      if failedCount = totalItems then
        (if failedCount = totalItems then
           (let failedIDs = map ID (Items b) in
            \<lparr>final_bill = b\<lparr>BStatus := BillFailed\<rparr>,
             error = Some (ApplicationError
                       (show_nat failedCount @ '' items failed: '' @ show_strings failedIDs)
                       ''ChargeFailed'' failedIDs False),
             calls = []\<rparr>)
         else \<lparr>final_bill = b, error = None, calls = []\<rparr>)
      else if failedCount = 0 then
        \<lparr>final_bill = b\<lparr>BStatus := BillSettled\<rparr>,
         error = None,
         calls = [(CreditAccountActivity (Total b) (Currency b),
                   credit_error env (Total b) (Currency b))]\<rparr>
      else
        (let refundedCount = length (refund_calls env 0 (Items b));
             b' = b\<lparr>Items := refunded_items (Items b), BStatus := BillCompensated\<rparr>;
             failedIDs = failed_ids (Items b') in
         \<lparr>final_bill = b',
          error = Some (ApplicationError
                    (''refunded '' @ show_nat refundedCount @ '' items after '' @
                     show_nat failedCount @ '' failures'')
                    ''ChargeCompensated'' failedIDs False),
          calls = refund_calls env 0 (Items b)\<rparr>))"

text \<open>
  The repository also holds an earlier text of the same function (\<open>src/billing/workflow.go\<close>,
  where \<open>Bill\<close> has no \<open>ID\<close> and no \<open>Currency\<close> yet): its \<open>switch\<close> is the one above without
  the \<open>CreditAccountActivity\<close> call of the second case.  \<open>resolve\<close> follows the later text,
  the one that compiles with \<open>activities.go\<close>, where the activities are defined.
\<close>

definition resolve_without_credit :: "Env \<Rightarrow> Bill \<Rightarrow> Outcome" where
  "resolve_without_credit env b =
     (let failedCount = count_failed (Items b); totalItems = length (Items b) in
      if failedCount = totalItems then
        (if failedCount = totalItems then
           (let failedIDs = map ID (Items b) in
            \<lparr>final_bill = b\<lparr>BStatus := BillFailed\<rparr>,
             error = Some (ApplicationError
                       (show_nat failedCount @ '' items failed: '' @ show_strings failedIDs)
                       ''ChargeFailed'' failedIDs False),
             calls = []\<rparr>)
         else \<lparr>final_bill = b, error = None, calls = []\<rparr>)
      else if failedCount = 0 then
        \<lparr>final_bill = b\<lparr>BStatus := BillSettled\<rparr>, error = None, calls = []\<rparr>
      else
        (let refundedCount = length (refund_calls env 0 (Items b));
             b' = b\<lparr>Items := refunded_items (Items b), BStatus := BillCompensated\<rparr>;
             failedIDs = failed_ids (Items b') in
         \<lparr>final_bill = b',
          error = Some (ApplicationError
                    (''refunded '' @ show_nat refundedCount @ '' items after '' @
                     show_nat failedCount @ '' failures'')
                    ''ChargeCompensated'' failedIDs False),
          calls = refund_calls env 0 (Items b)\<rparr>))"

text \<open>The calls that are a credit of the account.\<close>

definition is_credit :: "Activity \<times> bool \<Rightarrow> bool" where
  "is_credit c = (case fst c of CreditAccountActivity a cur \<Rightarrow> True | _ \<Rightarrow> False)"

definition charging :: "Env \<Rightarrow> Bill \<Rightarrow> Outcome" where
  "charging env b =
     (let r = resolve env (charge_fanout env b) in
      r\<lparr>calls := charge_calls env 0 (Items b) @ calls r\<rparr>)"

text \<open>The \<open>switch bill.Status\<close> after the loop.\<close>

definition after_loop :: "Env \<Rightarrow> Bill \<Rightarrow> Outcome" where
  "after_loop env b =
     (if BStatus b = BillCanceled \<or> BStatus b = BillExpired then
        \<lparr>final_bill = b, error = None, calls = []\<rparr>
      else if BStatus b = BillCharging then charging env b
      else \<lparr>final_bill = b, error = Some (ApplicationError ''invalid state'' [] [] True),
            calls = []\<rparr>)"

text \<open>
  \<open>BillWorkflow(ctx, billID, cur, periodEnd)\<close>.  \<open>periodEnd\<close> only sets the duration of
  the timer; in the model it is the place of \<open>TimerFired\<close> among the stimuli.
\<close>

definition BillWorkflow :: "Env \<Rightarrow> string \<Rightarrow> Currency \<Rightarrow> Stimulus list \<Rightarrow> Outcome option" where
  "BillWorkflow env billID cur ss =
     (case set_query_handler_error env of
        Some e \<Rightarrow>
          Some \<lparr>final_bill = new_bill billID cur, error = Some (QueryHandlerError e), calls = []\<rparr>
      | None \<Rightarrow>
          (case event_loop ss (initial_state billID cur) of
             None \<Rightarrow> None
           | Some s \<Rightarrow> Some (after_loop env (bill s))))"

section \<open>Sequences of aggregate calls\<close>

text \<open>
  The aggregate method behind each stimulus, with its error, and a bill after a
  sequence of such calls in any order and in any status (the loop makes only some of
  these sequences).  \<open>accepted\<close> lists the line items whose \<open>AddItem\<close> call returned
  \<open>nil\<close> along the way.
\<close>

fun aggregate_call :: "Stimulus \<Rightarrow> Bill \<Rightarrow> BillError option \<times> Bill" where
  "aggregate_call (AddLineItemSignal li) b = AddItem li b"
| "aggregate_call ChargeBillSignal b = BeginCharge b"
| "aggregate_call CancelBillSignal b = Cancel b"
| "aggregate_call TimerFired b = (None, Expire b)"

fun run_calls :: "Stimulus list \<Rightarrow> Bill \<Rightarrow> Bill" where
  "run_calls [] b = b"
| "run_calls (x # xs) b = run_calls xs (snd (aggregate_call x b))"

fun accepted :: "Stimulus list \<Rightarrow> Bill \<Rightarrow> LineItem list" where
  "accepted [] b = []"
| "accepted (AddLineItemSignal li # xs) b =
     (if fst (AddItem li b) = None then li # accepted xs (snd (AddItem li b))
      else accepted xs (snd (AddItem li b)))"
| "accepted (x # xs) b = accepted xs (snd (aggregate_call x b))"

section \<open>The account ledger\<close>

text \<open>
  \<open>balances\<close> is a Go map from currency to \<open>int64\<close>, read and written under one mutex;
  reading a missing key gives 0.  Each handler is one atomic step on the map.
  \<open>currency.Parse\<close> upper-cases its argument with \<open>strings.ToUpper\<close> of the Go standard
  library, which is a parameter here; \<open>ascii_upper\<close> is that function on ASCII strings.
\<close>

type_synonym Balances = "Currency \<rightharpoonup> int64"

definition balance_of :: "Balances \<Rightarrow> Currency \<Rightarrow> int64" where
  "balance_of m c = (case m c of None \<Rightarrow> 0 | Some v \<Rightarrow> v)"

definition USD :: Currency where "USD = ''USD''"
definition EUR :: Currency where "EUR = ''EUR''"
definition GEL :: Currency where "GEL = ''GEL''"

definition ascii_upper :: "string \<Rightarrow> string" where
  "ascii_upper s =
     map (\<lambda>c. case map_of (zip ''abcdefghijklmnopqrstuvwxyz'' ''ABCDEFGHIJKLMNOPQRSTUVWXYZ'') c of
                 None \<Rightarrow> c | Some u \<Rightarrow> u) s"

definition Parse :: "(string \<Rightarrow> string) \<Rightarrow> string \<Rightarrow> string + Currency" where
  "Parse ToUpper raw =
     (let s = ToUpper raw in
      if s = USD \<or> s = EUR \<or> s = GEL then Inr s
      else Inl (''unsupported currency '' @ [CHR 0x27] @ raw @ [CHR 0x27]))"

datatype ErrCode = InvalidArgument | FailedPrecondition

datatype ErrsError = ErrsError (Code: ErrCode) (Message: string)

definition AddBalance :: "Currency \<Rightarrow> int64 \<Rightarrow> Balances \<Rightarrow> ErrsError option \<times> Balances" where
  "AddBalance cur amount m =
     (if amount = 0 then (Some (ErrsError InvalidArgument ''amount cannot be zero''), m)
      else (None, m(cur \<mapsto> balance_of m cur + amount)))"

definition Withdraw ::
  "(string \<Rightarrow> string) \<Rightarrow> string \<Rightarrow> int64 \<Rightarrow> Balances \<Rightarrow> ErrsError option \<times> Balances" where
  "Withdraw ToUpper cur_str amount m =
     (case Parse ToUpper cur_str of
        Inl msg \<Rightarrow> (Some (ErrsError InvalidArgument msg), m)
      | Inr reqCur \<Rightarrow>
          if sint amount \<le> 0 then (Some (ErrsError InvalidArgument ''amount must be > 0''), m)
          else if sint (balance_of m reqCur) < sint amount
          then (Some (ErrsError FailedPrecondition ''insufficient funds''), m)
          else (None, m(reqCur \<mapsto> balance_of m reqCur - amount)))"

text \<open>A sequence of withdrawal requests, each a currency string and an amount.\<close>

fun withdraw_all :: "(string \<Rightarrow> string) \<Rightarrow> (string \<times> int64) list \<Rightarrow> Balances \<Rightarrow> Balances" where
  "withdraw_all ToUpper [] m = m"
| "withdraw_all ToUpper ((cur_str, amount) # rs) m =
     withdraw_all ToUpper rs (snd (Withdraw ToUpper cur_str amount m))"

text \<open>
  The activities as the repository implements them: the charge fails exactly for an
  item named \<open>FAIL\<close>, the refund never fails, and the credit is \<open>account.AddBalance\<close>,
  which rejects the amount 0.
\<close>

definition simulated :: Env where
  "simulated =
     \<lparr>set_query_handler_error = None,
      charge_error = (\<lambda>i li. Name li = ''FAIL''),
      refund_error = (\<lambda>i li. False),
      credit_error = (\<lambda>amount cur. fst (AddBalance cur amount Map.empty) \<noteq> None)\<rparr>"

section \<open>Invariants\<close>

text \<open>While a bill is Open or Charging by the aggregate's own calls, all its items are Pending.\<close>

definition pending_while_live :: "Bill \<Rightarrow> bool" where
  "pending_while_live b \<longleftrightarrow>
     (BStatus b = BillOpen \<or> BStatus b = BillCharging \<longrightarrow>
        (\<forall>it \<in> set (Items b). Status it = ItemPending))"

text \<open>
  What holds at every evaluation of the loop condition: the timer is canceled exactly
  when the bill is Charging or Canceled; an Open bill has seen neither \<open>Expire\<close> nor
  \<open>cancelTimer()\<close>; once the timer is canceled, \<open>cancelTimer()\<close> is the last thing that
  happened and \<open>Expire\<close> is not among the things before it; \<open>Expire\<close> was called exactly
  when the bill is Expired; and the bill is in one of the four statuses of the loop.
\<close>

definition loop_inv :: "LoopState \<Rightarrow> bool" where
  "loop_inv s \<longleftrightarrow>
     (timer_canceled s \<longleftrightarrow> BStatus (bill s) = BillCharging \<or> BStatus (bill s) = BillCanceled) \<and>
     (BStatus (bill s) = BillOpen \<longrightarrow>
        CalledExpire \<notin> set (actions s) \<and> CalledCancelTimer \<notin> set (actions s)) \<and>
     (timer_canceled s \<longrightarrow>
        (\<exists>pre. actions s = pre @ [CalledCancelTimer] \<and>
               CalledExpire \<notin> set pre \<and> CalledCancelTimer \<notin> set pre)) \<and>
     (CalledExpire \<in> set (actions s) \<longleftrightarrow> BStatus (bill s) = BillExpired) \<and>
     (BStatus (bill s) = BillOpen \<or> BStatus (bill s) = BillCharging \<or>
      BStatus (bill s) = BillCanceled \<or> BStatus (bill s) = BillExpired)"

section \<open>Literals used in the examples\<close>

text \<open>Go's composite literals \<open>LineItem{...}\<close> and \<open>Bill{...}\<close>, as the tests write them.\<close>

definition item :: "string \<Rightarrow> string \<Rightarrow> int64 \<Rightarrow> LineItemStatus \<Rightarrow> LineItem" where
  "item i n a st = \<lparr>ID = i, Name = n, Amount = a, Status = st\<rparr>"

definition a_bill :: "BillStatus \<Rightarrow> LineItem list \<Rightarrow> int64 \<Rightarrow> Bill" where
  "a_bill st its t = \<lparr>BillID = ''bill-1'', BStatus = st, Currency = ''USD'', Items = its, Total = t\<rparr>"

section \<open>Facts about the aggregate\<close>

lemma item_status_neq:
  "ItemPending \<noteq> ItemCharged" "ItemCharged \<noteq> ItemPending"
  "ItemPending \<noteq> ItemFailed" "ItemFailed \<noteq> ItemPending"
  "ItemPending \<noteq> ItemCanceled" "ItemCanceled \<noteq> ItemPending"
  "ItemPending \<noteq> ItemRefunded" "ItemRefunded \<noteq> ItemPending"
  "ItemCharged \<noteq> ItemFailed" "ItemFailed \<noteq> ItemCharged"
  "ItemCharged \<noteq> ItemRefunded" "ItemRefunded \<noteq> ItemCharged"
  "ItemRefunded \<noteq> ItemFailed" "ItemFailed \<noteq> ItemRefunded"
  "ItemCanceled \<noteq> ItemFailed" "ItemFailed \<noteq> ItemCanceled"
  by (simp_all add: ItemPending_def ItemCharged_def ItemFailed_def ItemCanceled_def
      ItemRefunded_def)

lemma bill_status_neq:
  "BillOpen \<noteq> BillCharging" "BillCharging \<noteq> BillOpen"
  "BillOpen \<noteq> BillSettled" "BillSettled \<noteq> BillOpen"
  "BillOpen \<noteq> BillCanceled" "BillCanceled \<noteq> BillOpen"
  "BillOpen \<noteq> BillExpired" "BillExpired \<noteq> BillOpen"
  "BillOpen \<noteq> BillFailed" "BillFailed \<noteq> BillOpen"
  "BillOpen \<noteq> BillCompensated" "BillCompensated \<noteq> BillOpen"
  "BillCharging \<noteq> BillCanceled" "BillCanceled \<noteq> BillCharging"
  "BillCharging \<noteq> BillExpired" "BillExpired \<noteq> BillCharging"
  "BillCanceled \<noteq> BillExpired" "BillExpired \<noteq> BillCanceled"
  "BillExpired \<noteq> BillFailed" "BillFailed \<noteq> BillExpired"
  "BillExpired \<noteq> BillSettled" "BillSettled \<noteq> BillExpired"
  "BillExpired \<noteq> BillCompensated" "BillCompensated \<noteq> BillExpired"
  "BillFailed \<noteq> BillSettled" "BillSettled \<noteq> BillFailed"
  "BillFailed \<noteq> BillCompensated" "BillCompensated \<noteq> BillFailed"
  "BillSettled \<noteq> BillCompensated" "BillCompensated \<noteq> BillSettled"
  by (simp_all add: BillOpen_def BillCharging_def BillSettled_def BillCanceled_def
      BillExpired_def BillFailed_def BillCompensated_def)

lemma id_present_iff: "id_present i its \<longleftrightarrow> i \<in> ID ` set its"
  by (induction its) auto

lemma count_pending_filter:
  "count_pending its = length (filter (\<lambda>it. Status it = ItemPending) its)"
  by (induction its) auto

lemma cancel_pending_map:
  "cancel_pending its =
     map (\<lambda>it. if Status it = ItemPending then it\<lparr>Status := ItemCanceled\<rparr> else it) its"
  by (induction its) auto

text \<open>
  \<^bold>\<open>C5.\<close>  \<open>AddItem\<close> on any bill with any line item: when the bill is not Open the call
  fails with \<open>ErrBillNotOpen\<close>; when the bill is Open and an item with the same
  identifier is present it fails with \<open>ErrDuplicateItem\<close>; a failing call leaves the
  bill, so its items and its total, as they were; otherwise the item is appended with
  status Pending and the total grows by the item's amount (in \<open>int64\<close>).  The two
  failure conditions are checked in this order, so a duplicate offered to a bill that
  is not Open is answered with \<open>ErrBillNotOpen\<close>.
\<close>

theorem AddItem_spec:
  "(BStatus b \<noteq> BillOpen \<longrightarrow> AddItem li b = (Some ErrBillNotOpen, b)) \<and>
   (BStatus b = BillOpen \<and> ID li \<in> ID ` set (Items b) \<longrightarrow>
      AddItem li b = (Some (ErrDuplicateItem (ID li)), b)) \<and>
   (fst (AddItem li b) \<noteq> None \<longrightarrow>
      Items (snd (AddItem li b)) = Items b \<and> Total (snd (AddItem li b)) = Total b) \<and>
   (BStatus b = BillOpen \<and> ID li \<notin> ID ` set (Items b) \<longrightarrow>
      AddItem li b =
        (None, b\<lparr>Items := Items b @ [li\<lparr>Status := ItemPending\<rparr>],
                  Total := Total b + Amount li\<rparr>))"
  by (simp add: AddItem_def id_present_iff)

theorem AddItem_spec_witness:
  "AddItem (item ''y'' ''Y'' 10 []) (a_bill BillCanceled [] 0)
     = (Some ErrBillNotOpen, a_bill BillCanceled [] 0) \<and>
   AddItem (item ''x'' ''T'' 50 []) (a_bill BillOpen [item ''x'' ''T'' 50 ItemPending] 50)
     = (Some (ErrDuplicateItem ''x''), a_bill BillOpen [item ''x'' ''T'' 50 ItemPending] 50) \<and>
   AddItem (item ''z'' ''Test'' 100 ItemCharged)
       (a_bill BillOpen [item ''x'' ''T'' 50 ItemPending] 50)
     = (None, a_bill BillOpen
                [item ''x'' ''T'' 50 ItemPending, item ''z'' ''Test'' 100 ItemPending] 150)"
  using
    AddItem_spec [of "a_bill BillCanceled [] 0" "item ''y'' ''Y'' 10 []"]
    AddItem_spec [of "a_bill BillOpen [item ''x'' ''T'' 50 ItemPending] 50"
                     "item ''x'' ''T'' 50 []"]
    AddItem_spec [of "a_bill BillOpen [item ''x'' ''T'' 50 ItemPending] 50"
                     "item ''z'' ''Test'' 100 ItemCharged"]
  by (simp add: a_bill_def item_def bill_status_neq)

text \<open>
  \<^bold>\<open>C6.\<close>  \<open>BeginCharge\<close> on any bill: when the bill is not Open the call fails with
  \<open>ErrBillNotOpen\<close>; when it is Open and no item is Pending it fails with
  \<open>ErrNoPendingItems\<close>, the status stays Open and no field changes; otherwise the
  status becomes Charging and nothing else changes.
\<close>

theorem BeginCharge_spec:
  "(BStatus b \<noteq> BillOpen \<longrightarrow> BeginCharge b = (Some ErrBillNotOpen, b)) \<and>
   (BStatus b = BillOpen \<and> (\<forall>it \<in> set (Items b). Status it \<noteq> ItemPending) \<longrightarrow>
      BeginCharge b = (Some ErrNoPendingItems, b) \<and> BStatus (snd (BeginCharge b)) = BillOpen) \<and>
   (BStatus b = BillOpen \<and> (\<exists>it \<in> set (Items b). Status it = ItemPending) \<longrightarrow>
      BeginCharge b = (None, b\<lparr>BStatus := BillCharging\<rparr>) \<and>
      Items (snd (BeginCharge b)) = Items b \<and> Total (snd (BeginCharge b)) = Total b)"
  by (auto simp: BeginCharge_def PendingCount_def count_pending_filter filter_empty_conv)

theorem BeginCharge_spec_witness:
  "BeginCharge (a_bill BillSettled [item ''p'' ''P'' 1 ItemPending] 1)
     = (Some ErrBillNotOpen, a_bill BillSettled [item ''p'' ''P'' 1 ItemPending] 1) \<and>
   BeginCharge (a_bill BillOpen [] 0) = (Some ErrNoPendingItems, a_bill BillOpen [] 0) \<and>
   BeginCharge (a_bill BillOpen [item ''c'' ''C'' 2 ItemCharged] 2)
     = (Some ErrNoPendingItems, a_bill BillOpen [item ''c'' ''C'' 2 ItemCharged] 2) \<and>
   BeginCharge (a_bill BillOpen [item ''p'' ''P'' 1 ItemPending] 1)
     = (None, a_bill BillCharging [item ''p'' ''P'' 1 ItemPending] 1)"
  using
    BeginCharge_spec [of "a_bill BillSettled [item ''p'' ''P'' 1 ItemPending] 1"]
    BeginCharge_spec [of "a_bill BillOpen [] 0"]
    BeginCharge_spec [of "a_bill BillOpen [item ''c'' ''C'' 2 ItemCharged] 2"]
    BeginCharge_spec [of "a_bill BillOpen [item ''p'' ''P'' 1 ItemPending] 1"]
  by (simp add: a_bill_def item_def bill_status_neq item_status_neq)

text \<open>
  \<^bold>\<open>C7.\<close>  \<open>Cancel\<close> on any bill: when the bill is not Open the call fails with
  \<open>ErrCannotCancel\<close> and changes nothing; when it is Open the status becomes Canceled,
  the total, the identifier and the currency stay, the items keep their number and
  their order, every Pending item becomes Canceled with its other fields kept, and
  every other item stays as it is.
\<close>

theorem Cancel_spec:
  "(BStatus b \<noteq> BillOpen \<longrightarrow> Cancel b = (Some ErrCannotCancel, b)) \<and>
   (BStatus b = BillOpen \<longrightarrow>
      fst (Cancel b) = None \<and>
      BStatus (snd (Cancel b)) = BillCanceled \<and>
      Total (snd (Cancel b)) = Total b \<and>
      BillID (snd (Cancel b)) = BillID b \<and> Currency (snd (Cancel b)) = Currency b \<and>
      length (Items (snd (Cancel b))) = length (Items b) \<and>
      (\<forall>i < length (Items b).
         (Status (Items b ! i) = ItemPending \<longrightarrow>
            Items (snd (Cancel b)) ! i = (Items b ! i)\<lparr>Status := ItemCanceled\<rparr>) \<and>
         (Status (Items b ! i) \<noteq> ItemPending \<longrightarrow>
            Items (snd (Cancel b)) ! i = Items b ! i)))"
  by (simp add: Cancel_def cancel_pending_map)

theorem Cancel_spec_witness:
  "Cancel (a_bill BillCharging [item ''p'' ''P'' 1 ItemPending] 1)
     = (Some ErrCannotCancel, a_bill BillCharging [item ''p'' ''P'' 1 ItemPending] 1) \<and>
   Cancel (a_bill BillOpen [item ''p'' ''P'' 1 ItemPending, item ''c'' ''C'' 2 ItemCharged] 3)
     = (None, a_bill BillCanceled
                [item ''p'' ''P'' 1 ItemCanceled, item ''c'' ''C'' 2 ItemCharged] 3)"
  using
    Cancel_spec [of "a_bill BillCharging [item ''p'' ''P'' 1 ItemPending] 1"]
    Cancel_spec [of "a_bill BillOpen
                       [item ''p'' ''P'' 1 ItemPending, item ''c'' ''C'' 2 ItemCharged] 3"]
  by (simp add: Cancel_def a_bill_def item_def bill_status_neq item_status_neq)

section \<open>Facts about the ledger\<close>

lemma sint_sub_in_range:
  fixes a b :: int64
  assumes "0 < sint a" "sint a \<le> sint b"
  shows "sint (b - a) = sint b - sint a"
proof -
  have "sint b < 2 ^ 63" using sint_lt [of b] by simp
  then have "- (2 ^ 63) \<le> sint b - sint a" "sint b - sint a < 2 ^ 63"
    using assms by linarith+
  then show ?thesis
    by (simp add: sint_word_ariths signed_take_bit_int_eq_self)
qed

lemma Withdraw_error_unchanged:
  "fst (Withdraw up cs amount m) \<noteq> None \<Longrightarrow> snd (Withdraw up cs amount m) = m"
  by (auto simp: Withdraw_def split: sum.splits if_splits)

lemma Withdraw_nonneg:
  assumes "0 \<le> sint (balance_of m c)"
  shows "0 \<le> sint (balance_of (snd (Withdraw up cs amount m)) c)"
proof (cases "Parse up cs")
  case (Inl msg)
  then show ?thesis using assms by (simp add: Withdraw_def)
next
  case (Inr reqCur)
  show ?thesis
  proof (cases "sint amount \<le> 0 \<or> sint (balance_of m reqCur) < sint amount")
    case True
    then show ?thesis using assms Inr by (auto simp: Withdraw_def)
  next
    case False
    then have ok: "0 < sint amount" "sint amount \<le> sint (balance_of m reqCur)" by auto
    have w: "snd (Withdraw up cs amount m) = m(reqCur \<mapsto> balance_of m reqCur - amount)"
      using False Inr by (auto simp: Withdraw_def)
    show ?thesis
    proof (cases "c = reqCur")
      case True
      then show ?thesis using sint_sub_in_range [OF ok] ok by (simp add: w balance_of_def)
    next
      case False
      then show ?thesis using assms by (simp add: w balance_of_def)
    qed
  qed
qed

lemma withdraw_all_nonneg:
  "\<forall>c. 0 \<le> sint (balance_of m c) \<Longrightarrow> 0 \<le> sint (balance_of (withdraw_all up rs m) c)"
proof (induction rs arbitrary: m)
  case Nil
  then show ?case by simp
next
  case (Cons r rs)
  obtain cs amount where r: "r = (cs, amount)" by (cases r)
  have "\<forall>c. 0 \<le> sint (balance_of (snd (Withdraw up cs amount m)) c)"
    using Cons.prems Withdraw_nonneg by blast
  then show ?case using Cons.IH r by simp
qed

text \<open>
  \<^bold>\<open>C10.\<close>  \<open>Withdraw\<close> on any ledger, for any currency string, any amount and any
  upper-casing function: an amount that is not strictly positive is refused with an
  error and the ledger is unchanged; an amount above the balance of the requested
  currency is refused with an error and the ledger is unchanged; every refused call
  leaves the ledger unchanged; an accepted call lowers the balance of the requested
  currency by the amount, without wrap-around.  Hence a balance that is not negative
  is not negative after \<open>Withdraw\<close>, for every currency, and after any sequence of
  \<open>Withdraw\<close> calls.  Comparisons and the balance are read as signed 64-bit values.
\<close>

theorem Withdraw_spec:
  "(sint amount \<le> 0 \<longrightarrow>
      fst (Withdraw up cs amount m) \<noteq> None \<and> snd (Withdraw up cs amount m) = m) \<and>
   (\<forall>reqCur. Parse up cs = Inr reqCur \<and> sint (balance_of m reqCur) < sint amount \<longrightarrow>
      fst (Withdraw up cs amount m) \<noteq> None \<and> snd (Withdraw up cs amount m) = m) \<and>
   (fst (Withdraw up cs amount m) \<noteq> None \<longrightarrow> snd (Withdraw up cs amount m) = m) \<and>
   (\<forall>reqCur. Parse up cs = Inr reqCur \<and> 0 < sint amount \<and>
        sint amount \<le> sint (balance_of m reqCur) \<longrightarrow>
      fst (Withdraw up cs amount m) = None \<and>
      sint (balance_of (snd (Withdraw up cs amount m)) reqCur)
        = sint (balance_of m reqCur) - sint amount) \<and>
   (\<forall>c. 0 \<le> sint (balance_of m c) \<longrightarrow>
      0 \<le> sint (balance_of (snd (Withdraw up cs amount m)) c)) \<and>
   ((\<forall>c. 0 \<le> sint (balance_of m c)) \<longrightarrow>
      (\<forall>c. 0 \<le> sint (balance_of (withdraw_all up rs m) c)))"
proof (intro conjI allI impI)
  assume "sint amount \<le> 0"
  then show "fst (Withdraw up cs amount m) \<noteq> None" "snd (Withdraw up cs amount m) = m"
    by (auto simp: Withdraw_def split: sum.splits)
next
  fix reqCur
  assume "Parse up cs = Inr reqCur \<and> sint (balance_of m reqCur) < sint amount"
  then show "fst (Withdraw up cs amount m) \<noteq> None" "snd (Withdraw up cs amount m) = m"
    by (auto simp: Withdraw_def)
next
  assume "fst (Withdraw up cs amount m) \<noteq> None"
  then show "snd (Withdraw up cs amount m) = m" by (rule Withdraw_error_unchanged)
next
  fix reqCur
  assume h: "Parse up cs = Inr reqCur \<and> 0 < sint amount \<and>
        sint amount \<le> sint (balance_of m reqCur)"
  then show "fst (Withdraw up cs amount m) = None" by (auto simp: Withdraw_def)
  from h have "snd (Withdraw up cs amount m) = m(reqCur \<mapsto> balance_of m reqCur - amount)"
    by (auto simp: Withdraw_def)
  then show "sint (balance_of (snd (Withdraw up cs amount m)) reqCur)
        = sint (balance_of m reqCur) - sint amount"
    using h sint_sub_in_range [of amount "balance_of m reqCur"] by (simp add: balance_of_def)
next
  fix c assume "0 \<le> sint (balance_of m c)"
  then show "0 \<le> sint (balance_of (snd (Withdraw up cs amount m)) c)" by (rule Withdraw_nonneg)
next
  fix c assume "\<forall>c. 0 \<le> sint (balance_of m c)"
  then show "0 \<le> sint (balance_of (withdraw_all up rs m) c)" by (rule withdraw_all_nonneg)
qed

theorem Withdraw_spec_witness:
  "fst (Withdraw ascii_upper ''usd'' 0 [''USD'' \<mapsto> 100]) \<noteq> None \<and>
   snd (Withdraw ascii_upper ''usd'' 0 [''USD'' \<mapsto> 100]) = [''USD'' \<mapsto> 100] \<and>
   fst (Withdraw ascii_upper ''usd'' 101 [''USD'' \<mapsto> 100]) \<noteq> None \<and>
   snd (Withdraw ascii_upper ''usd'' 101 [''USD'' \<mapsto> 100]) = [''USD'' \<mapsto> 100] \<and>
   fst (Withdraw ascii_upper ''usd'' 30 [''USD'' \<mapsto> 100]) = None \<and>
   sint (balance_of (snd (Withdraw ascii_upper ''usd'' 30 [''USD'' \<mapsto> 100])) ''USD'') = 70 \<and>
   (\<forall>c. 0 \<le> sint (balance_of
           (withdraw_all ascii_upper [(''usd'', 30), (''eur'', 5), (''USD'', 80), (''Usd'', 70)]
              [''USD'' \<mapsto> 100]) c))"
proof -
  have p: "Parse ascii_upper ''usd'' = Inr ''USD''"
    by (simp add: Parse_def ascii_upper_def USD_def)
  have nn: "\<forall>c. 0 \<le> sint (balance_of [''USD'' \<mapsto> (100::int64)] c)"
    by (simp add: balance_of_def)
  show ?thesis
    using p nn
      Withdraw_spec [of 0 ascii_upper "''usd''" "[''USD'' \<mapsto> 100]" "[]"]
      Withdraw_spec [of 101 ascii_upper "''usd''" "[''USD'' \<mapsto> 100]" "[]"]
      Withdraw_spec [of 30 ascii_upper "''usd''" "[''USD'' \<mapsto> 100]"
        "[(''usd'', 30), (''eur'', 5), (''USD'', 80), (''Usd'', 70)]"]
    by (simp add: balance_of_def)
qed

section \<open>Facts about the running total\<close>

lemma sint_add_in_range:
  fixes a b :: int64
  assumes "0 \<le> sint a" "sint b + sint a < 2 ^ 63"
  shows "sint (b + a) = sint b + sint a"
proof -
  have "- (2 ^ 63) \<le> sint b" using sint_ge [of b] by simp
  then have "- (2 ^ 63) \<le> sint b + sint a"
    using assms by linarith
  then show ?thesis using assms
    by (simp add: sint_word_ariths signed_take_bit_int_eq_self)
qed

lemma sint_sum_list_exact:
  fixes ws :: "int64 list"
  assumes "\<forall>a \<in> set ws. 0 \<le> sint a" "sum_list (map sint ws) < 2 ^ 63"
  shows "sint (sum_list ws) = sum_list (map sint ws)"
  using assms
proof (induction ws)
  case Nil
  then show ?case by simp
next
  case (Cons a ws)
  have nn: "0 \<le> sum_list (map sint ws)"
    using Cons.prems(1) by (intro sum_list_nonneg) auto
  have "sum_list (map sint ws) < 2 ^ 63" using Cons.prems by simp
  then have ih: "sint (sum_list ws) = sum_list (map sint ws)"
    using Cons.IH Cons.prems(1) by simp
  have "sint (a + sum_list ws) = sint a + sint (sum_list ws)"
    using sint_add_in_range [of "sum_list ws" a] nn ih Cons.prems
    by (simp add: add.commute)
  then show ?case using ih by simp
qed

lemma run_calls_Total:
  "Total (run_calls xs b) = Total b + sum_list (map Amount (accepted xs b))"
proof (induction xs arbitrary: b)
  case Nil
  then show ?case by simp
next
  case (Cons x xs)
  show ?case
    by (cases x) (simp_all add: Cons.IH AddItem_def BeginCharge_def Cancel_def Expire_def)
qed

lemma cancel_pending_amounts: "map Amount (cancel_pending its) = map Amount its"
  by (induction its) auto

lemma run_calls_amounts:
  "map Amount (Items (run_calls xs b)) = map Amount (Items b) @ map Amount (accepted xs b)"
proof (induction xs arbitrary: b)
  case Nil
  then show ?case by simp
next
  case (Cons x xs)
  show ?case
    by (cases x)
      (simp_all add: Cons.IH AddItem_def BeginCharge_def Cancel_def Expire_def
        cancel_pending_amounts)
qed

lemma charging_Total: "Total (final_bill (charging env b)) = Total b"
  by (simp add: charging_def resolve_def charge_fanout_def Let_def)

text \<open>
  \<^bold>\<open>C4\<close>, as the code has it.  \<open>Total\<close> is an \<open>int64\<close> and \<open>AddItem\<close> adds to it without
  a check of the amount's sign or of overflow, so the total is the sum of the accepted
  amounts modulo \<open>2^64\<close>, and an accepted item can lower it.  For a bill made by the
  workflow (a new bill after any sequence of aggregate calls):
  the total is the wrap-around sum of the amounts of the items \<open>AddItem\<close> accepted, which
  are the amounts of the items the bill holds, in order; when those amounts are not
  negative and their sum is below \<open>2^63\<close>, the total is their sum exactly.
  For any bill: \<open>BeginCharge\<close>, \<open>Cancel\<close>, \<open>Expire\<close>, a refused \<open>AddItem\<close> and the whole
  charging phase (items becoming Charged, Failed or Refunded) leave the total as it
  is; an \<open>AddItem\<close> of an item whose amount is not negative does not lower the total
  when total plus amount stays below \<open>2^63\<close>.
\<close>

theorem total_is_wrapped_sum:
  "Total (run_calls xs (new_bill i c)) = sum_list (map Amount (accepted xs (new_bill i c))) \<and>
   map Amount (Items (run_calls xs (new_bill i c))) = map Amount (accepted xs (new_bill i c)) \<and>
   ((\<forall>li \<in> set (accepted xs (new_bill i c)). 0 \<le> sint (Amount li)) \<and>
    (\<Sum>li\<leftarrow>accepted xs (new_bill i c). sint (Amount li)) < 2 ^ 63 \<longrightarrow>
      sint (Total (run_calls xs (new_bill i c)))
        = (\<Sum>li\<leftarrow>accepted xs (new_bill i c). sint (Amount li))) \<and>
   Total (snd (BeginCharge b)) = Total b \<and>
   Total (snd (Cancel b)) = Total b \<and>
   Total (Expire b) = Total b \<and>
   Total (final_bill (charging env b)) = Total b \<and>
   (fst (AddItem li b) \<noteq> None \<longrightarrow> Total (snd (AddItem li b)) = Total b) \<and>
   (0 \<le> sint (Amount li) \<and> sint (Total b) + sint (Amount li) < 2 ^ 63 \<longrightarrow>
      sint (Total b) \<le> sint (Total (snd (AddItem li b))))"
proof (intro conjI impI)
  show "Total (run_calls xs (new_bill i c)) = sum_list (map Amount (accepted xs (new_bill i c)))"
    by (simp add: run_calls_Total) (simp add: new_bill_def)
  show "map Amount (Items (run_calls xs (new_bill i c))) = map Amount (accepted xs (new_bill i c))"
    by (simp add: run_calls_amounts) (simp add: new_bill_def)
  show "Total (snd (BeginCharge b)) = Total b" by (simp add: BeginCharge_def)
  show "Total (snd (Cancel b)) = Total b" by (simp add: Cancel_def)
  show "Total (Expire b) = Total b" by (simp add: Expire_def)
  show "Total (final_bill (charging env b)) = Total b" by (rule charging_Total)
next
  assume "fst (AddItem li b) \<noteq> None"
  then show "Total (snd (AddItem li b)) = Total b"
    by (auto simp: AddItem_def split: if_splits)
next
  assume h: "0 \<le> sint (Amount li) \<and> sint (Total b) + sint (Amount li) < 2 ^ 63"
  then have "sint (Total b + Amount li) = sint (Total b) + sint (Amount li)"
    using sint_add_in_range by blast
  with h show "sint (Total b) \<le> sint (Total (snd (AddItem li b)))"
    by (simp add: AddItem_def)
next
  assume h: "(\<forall>li \<in> set (accepted xs (new_bill i c)). 0 \<le> sint (Amount li)) \<and>
    (\<Sum>li\<leftarrow>accepted xs (new_bill i c). sint (Amount li)) < 2 ^ 63"
  have "sint (sum_list (map Amount (accepted xs (new_bill i c))))
          = sum_list (map sint (map Amount (accepted xs (new_bill i c))))"
    using h by (intro sint_sum_list_exact) (auto simp: comp_def)
  then show "sint (Total (run_calls xs (new_bill i c)))
        = (\<Sum>li\<leftarrow>accepted xs (new_bill i c). sint (Amount li))"
    by (simp add: run_calls_Total comp_def) (simp add: new_bill_def)
qed

theorem total_is_wrapped_sum_witness:
  "accepted [AddLineItemSignal (item ''a1'' ''Book'' 1500 []),
             AddLineItemSignal (item ''b2'' ''Pen'' 500 []),
             AddLineItemSignal (item ''a1'' ''Book'' 1500 []), ChargeBillSignal,
             AddLineItemSignal (item ''c3'' ''Ink'' 7 [])] (new_bill ''bill-1'' ''USD'')
     = [item ''a1'' ''Book'' 1500 [], item ''b2'' ''Pen'' 500 []] \<and>
   sint (Total (run_calls [AddLineItemSignal (item ''a1'' ''Book'' 1500 []),
             AddLineItemSignal (item ''b2'' ''Pen'' 500 []),
             AddLineItemSignal (item ''a1'' ''Book'' 1500 []), ChargeBillSignal,
             AddLineItemSignal (item ''c3'' ''Ink'' 7 [])] (new_bill ''bill-1'' ''USD''))) = 2000 \<and>
   fst (AddItem (item ''c3'' ''Ink'' 7 []) (a_bill BillCharging [item ''a1'' ''Book'' 1500 ItemPending] 1500))
     \<noteq> None \<and>
   Total (snd (AddItem (item ''c3'' ''Ink'' 7 [])
                 (a_bill BillCharging [item ''a1'' ''Book'' 1500 ItemPending] 1500))) = 1500 \<and>
   sint (Total (a_bill BillOpen [item ''a1'' ''Book'' 1500 ItemPending] 1500))
     \<le> sint (Total (snd (AddItem (item ''c3'' ''Ink'' 7 [])
                 (a_bill BillOpen [item ''a1'' ''Book'' 1500 ItemPending] 1500))))"
proof -
  have acc: "accepted [AddLineItemSignal (item ''a1'' ''Book'' 1500 []),
             AddLineItemSignal (item ''b2'' ''Pen'' 500 []),
             AddLineItemSignal (item ''a1'' ''Book'' 1500 []), ChargeBillSignal,
             AddLineItemSignal (item ''c3'' ''Ink'' 7 [])] (new_bill ''bill-1'' ''USD'')
     = [item ''a1'' ''Book'' 1500 [], item ''b2'' ''Pen'' 500 []]"
    by (simp add: AddItem_def BeginCharge_def PendingCount_def new_bill_def item_def
        bill_status_neq)
  show ?thesis
    using acc
      total_is_wrapped_sum [of "[AddLineItemSignal (item ''a1'' ''Book'' 1500 []),
             AddLineItemSignal (item ''b2'' ''Pen'' 500 []),
             AddLineItemSignal (item ''a1'' ''Book'' 1500 []), ChargeBillSignal,
             AddLineItemSignal (item ''c3'' ''Ink'' 7 [])]" "''bill-1''" "''USD''"
          "a_bill BillCharging [item ''a1'' ''Book'' 1500 ItemPending] 1500" simulated
          "item ''c3'' ''Ink'' 7 []"]
      total_is_wrapped_sum [of "[]" "''bill-1''" "''USD''"
          "a_bill BillOpen [item ''a1'' ''Book'' 1500 ItemPending] 1500" simulated
          "item ''c3'' ''Ink'' 7 []"]
    by (simp add: item_def a_bill_def AddItem_def bill_status_neq)
qed

text \<open>
  The claim as the specification states it fails on two items with positive amounts:
  after an item of amount \<open>2^63 - 1\<close> a second item of amount 1 is accepted and the
  total wraps to \<open>-2^63\<close>, which is below the total before and is not the sum of the
  two amounts.
\<close>

theorem total_decreases_counterexample:
  "0 < sint (Amount (item ''a'' ''Book'' 0x7FFFFFFFFFFFFFFF [])) \<and>
   0 < sint (Amount (item ''b'' ''Pen'' 1 [])) \<and>
   fst (AddItem (item ''a'' ''Book'' 0x7FFFFFFFFFFFFFFF []) (new_bill ''bill-1'' ''USD'')) = None \<and>
   fst (AddItem (item ''b'' ''Pen'' 1 [])
          (snd (AddItem (item ''a'' ''Book'' 0x7FFFFFFFFFFFFFFF [])
                  (new_bill ''bill-1'' ''USD'')))) = None \<and>
   sint (Total (snd (AddItem (item ''b'' ''Pen'' 1 [])
          (snd (AddItem (item ''a'' ''Book'' 0x7FFFFFFFFFFFFFFF [])
                  (new_bill ''bill-1'' ''USD''))))))
     < sint (Total (snd (AddItem (item ''a'' ''Book'' 0x7FFFFFFFFFFFFFFF [])
                  (new_bill ''bill-1'' ''USD'')))) \<and>
   sint (Total (snd (AddItem (item ''b'' ''Pen'' 1 [])
          (snd (AddItem (item ''a'' ''Book'' 0x7FFFFFFFFFFFFFFF [])
                  (new_bill ''bill-1'' ''USD''))))))
     \<noteq> sint (Amount (item ''a'' ''Book'' 0x7FFFFFFFFFFFFFFF []))
        + sint (Amount (item ''b'' ''Pen'' 1 []))"
  by (simp add: AddItem_def new_bill_def item_def)

section \<open>Facts about the event loop\<close>

lemma aggregate_call_pending:
  "pending_while_live b \<Longrightarrow> pending_while_live (snd (aggregate_call x b))"
  by (cases x)
    (auto simp: pending_while_live_def AddItem_def BeginCharge_def Cancel_def Expire_def
      bill_status_neq)

lemma run_calls_pending:
  "pending_while_live b \<Longrightarrow> pending_while_live (run_calls xs b)"
  by (induction xs arbitrary: b) (simp_all add: aggregate_call_pending)

lemma new_bill_pending: "pending_while_live (new_bill i c)"
  by (simp add: pending_while_live_def new_bill_def)

lemma bill_handle: "bill (handle x s) = snd (aggregate_call x (bill s))"
  by (cases x) (auto split: prod.splits option.splits)

lemma event_loop_run_calls:
  "event_loop ss s = Some s' \<Longrightarrow> \<exists>xs. bill s' = run_calls xs (bill s)"
proof (induction ss arbitrary: s)
  case Nil
  then have "s' = s" by (simp split: if_splits)
  then have "bill s' = run_calls [] (bill s)" by simp
  then show ?case by blast
next
  case (Cons x ss)
  show ?case
  proof (cases "BStatus (bill s) = BillOpen")
    case True
    then have "event_loop ss (handle x s) = Some s'" using Cons.prems by simp
    then obtain xs where "bill s' = run_calls xs (bill (handle x s))"
      using Cons.IH by blast
    then have "bill s' = run_calls (x # xs) (bill s)" by (simp add: bill_handle)
    then show ?thesis by blast
  next
    case False
    then have "bill s' = run_calls [] (bill s)" using Cons.prems by simp
    then show ?thesis by blast
  qed
qed

text \<open>
  \<^bold>\<open>C9.\<close>  \<open>AddItem\<close> does not read the status the caller put into the line item: the
  call with any status is the call with any other; an accepted item is stored with
  status Pending.  Consequently a bill made by the workflow (a new bill after any
  sequence of aggregate calls) has only Pending items while it is Open, a successful
  \<open>BeginCharge\<close> on it gives a Charging bill whose items are all Pending, and so does
  the event loop whenever it ends with a Charging bill.
\<close>

theorem items_pending_while_open:
  "AddItem (li\<lparr>Status := st\<rparr>) b = AddItem li b \<and>
   (fst (AddItem li b) = None \<longrightarrow>
      Items (snd (AddItem li b)) = Items b @ [li\<lparr>Status := ItemPending\<rparr>]) \<and>
   (BStatus (run_calls xs (new_bill i c)) = BillOpen \<longrightarrow>
      (\<forall>it \<in> set (Items (run_calls xs (new_bill i c))). Status it = ItemPending)) \<and>
   (fst (BeginCharge (run_calls xs (new_bill i c))) = None \<longrightarrow>
      BStatus (snd (BeginCharge (run_calls xs (new_bill i c)))) = BillCharging \<and>
      (\<forall>it \<in> set (Items (snd (BeginCharge (run_calls xs (new_bill i c))))).
         Status it = ItemPending)) \<and>
   (\<forall>s. event_loop ss (initial_state i c) = Some s \<and> BStatus (bill s) = BillCharging \<longrightarrow>
      (\<forall>it \<in> set (Items (bill s)). Status it = ItemPending))"
proof (intro conjI impI allI)
  show "AddItem (li\<lparr>Status := st\<rparr>) b = AddItem li b" by (simp add: AddItem_def)
next
  assume "fst (AddItem li b) = None"
  then show "Items (snd (AddItem li b)) = Items b @ [li\<lparr>Status := ItemPending\<rparr>]"
    by (auto simp: AddItem_def split: if_splits)
next
  have inv: "pending_while_live (run_calls xs (new_bill i c))"
    by (rule run_calls_pending [OF new_bill_pending])
  {
    assume "BStatus (run_calls xs (new_bill i c)) = BillOpen"
    then show "\<forall>it \<in> set (Items (run_calls xs (new_bill i c))). Status it = ItemPending"
      using inv by (simp add: pending_while_live_def)
  }
  assume ok: "fst (BeginCharge (run_calls xs (new_bill i c))) = None"
  then have op: "BStatus (run_calls xs (new_bill i c)) = BillOpen"
    by (auto simp: BeginCharge_def split: if_splits)
  from ok show "BStatus (snd (BeginCharge (run_calls xs (new_bill i c)))) = BillCharging"
    by (auto simp: BeginCharge_def split: if_splits)
  from ok op inv
  show "\<forall>it \<in> set (Items (snd (BeginCharge (run_calls xs (new_bill i c))))). Status it = ItemPending"
    by (auto simp: BeginCharge_def pending_while_live_def split: if_splits)
next
  fix s
  assume h: "event_loop ss (initial_state i c) = Some s \<and> BStatus (bill s) = BillCharging"
  then obtain ys where "bill s = run_calls ys (bill (initial_state i c))"
    using event_loop_run_calls by blast
  then have "pending_while_live (bill s)"
    using run_calls_pending [OF new_bill_pending] by (simp add: initial_state_def)
  then show "\<forall>it \<in> set (Items (bill s)). Status it = ItemPending"
    using h by (simp add: pending_while_live_def)
qed

theorem items_pending_while_open_witness:
  "AddItem (item ''a1'' ''Book'' 1500 ItemRefunded) (new_bill ''bill-1'' ''USD'')
     = AddItem (item ''a1'' ''Book'' 1500 []) (new_bill ''bill-1'' ''USD'') \<and>
   Items (snd (AddItem (item ''a1'' ''Book'' 1500 ItemRefunded) (new_bill ''bill-1'' ''USD'')))
     = [item ''a1'' ''Book'' 1500 ItemPending] \<and>
   BStatus (run_calls [AddLineItemSignal (item ''a1'' ''Book'' 1500 ItemRefunded),
                       AddLineItemSignal (item ''b2'' ''Pen'' 500 ItemCharged)]
              (new_bill ''bill-1'' ''USD'')) = BillOpen \<and>
   Items (snd (BeginCharge
            (run_calls [AddLineItemSignal (item ''a1'' ''Book'' 1500 ItemRefunded),
                        AddLineItemSignal (item ''b2'' ''Pen'' 500 ItemCharged)]
               (new_bill ''bill-1'' ''USD''))))
     = [item ''a1'' ''Book'' 1500 ItemPending, item ''b2'' ''Pen'' 500 ItemPending] \<and>
   event_loop [AddLineItemSignal (item ''a1'' ''Book'' 1500 ItemRefunded), ChargeBillSignal]
       (initial_state ''bill-1'' ''USD'')
     = Some \<lparr>bill = a_bill BillCharging [item ''a1'' ''Book'' 1500 ItemPending] 1500,
             timer_canceled = True,
             actions = [CalledAddItem (item ''a1'' ''Book'' 1500 ItemRefunded),
                        CalledBeginCharge, CalledCancelTimer]\<rparr>"
  using
    items_pending_while_open [where li = "item ''a1'' ''Book'' 1500 []" and st = ItemRefunded
      and b = "new_bill ''bill-1'' ''USD''"
      and xs = "[AddLineItemSignal (item ''a1'' ''Book'' 1500 ItemRefunded),
                 AddLineItemSignal (item ''b2'' ''Pen'' 500 ItemCharged)]"
      and i = "''bill-1''" and c = "''USD''"
      and ss = "[AddLineItemSignal (item ''a1'' ''Book'' 1500 ItemRefunded), ChargeBillSignal]"]
  by (simp add: item_def a_bill_def new_bill_def initial_state_def AddItem_def BeginCharge_def
      PendingCount_def bill_status_neq item_status_neq)

lemma initial_state_inv: "loop_inv (initial_state i c)"
  by (simp add: loop_inv_def initial_state_def new_bill_def bill_status_neq)

lemma handle_inv:
  assumes "loop_inv s" "BStatus (bill s) = BillOpen"
  shows "loop_inv (handle x s)"
proof (cases x)
  case (AddLineItemSignal li)
  then show ?thesis using assms
    by (auto simp: loop_inv_def AddItem_def bill_status_neq)
next
  case ChargeBillSignal
  then show ?thesis using assms
    by (auto simp: loop_inv_def BeginCharge_def bill_status_neq)
next
  case CancelBillSignal
  then show ?thesis using assms
    by (auto simp: loop_inv_def Cancel_def bill_status_neq)
next
  case TimerFired
  then show ?thesis using assms
    by (auto simp: loop_inv_def Expire_def bill_status_neq)
qed

lemma loop_states_inv:
  "loop_inv s \<Longrightarrow> s' \<in> set (loop_states ss s) \<Longrightarrow> loop_inv s'"
proof (induction ss arbitrary: s)
  case Nil
  then show ?case by simp
next
  case (Cons x ss)
  then show ?case
    by (cases "BStatus (bill s) = BillOpen") (auto dest: handle_inv)
qed

lemma loop_states_nonempty: "loop_states ss s \<noteq> []"
  by (cases ss) auto

lemma loop_states_open_before_last:
  "Suc k < length (loop_states ss s) \<Longrightarrow> BStatus (bill (loop_states ss s ! k)) = BillOpen"
proof (induction ss arbitrary: s k)
  case Nil
  then show ?case by simp
next
  case (Cons x ss)
  show ?case
  proof (cases "BStatus (bill s) = BillOpen")
    case True
    show ?thesis
    proof (cases k)
      case 0
      then show ?thesis using True by simp
    next
      case (Suc j)
      then show ?thesis using Cons.prems Cons.IH [of j "handle x s"] True by simp
    qed
  next
    case False
    then show ?thesis using Cons.prems by simp
  qed
qed

lemma event_loop_last:
  "event_loop ss s = Some s' \<Longrightarrow> s' = last (loop_states ss s) \<and> BStatus (bill s') \<noteq> BillOpen"
proof (induction ss arbitrary: s)
  case Nil
  then show ?case by (simp split: if_splits)
next
  case (Cons x ss)
  then show ?case
    by (cases "BStatus (bill s) = BillOpen") (auto simp: loop_states_nonempty)
qed

text \<open>
  \<^bold>\<open>C8.\<close>  In every run of the event loop from a new bill, whatever the order in which
  signals and the timer are served: a state that is not the last one evaluated by the
  loop has an Open bill, so no callback, and in particular not the one calling
  \<open>Expire\<close>, runs on a Charging or Canceled bill and no bill goes from Charging or
  Canceled to Expired; the timer is canceled exactly in the states whose bill is
  Charging or Canceled; in such a state the loop has ended, \<open>cancelTimer()\<close> is the last
  thing that happened and \<open>Expire\<close> was never called.  When the loop ends, the bill is
  Charging, Canceled or Expired; it is Expired exactly when \<open>Expire\<close> was called and
  exactly when the timer was not canceled; and what the workflow does after the loop
  never makes a bill Expired whose timer was canceled.
\<close>

theorem no_expire_after_leaving_open:
  "(\<forall>k < length (loop_states ss (initial_state i c)).
      (Suc k < length (loop_states ss (initial_state i c)) \<longrightarrow>
         BStatus (bill (loop_states ss (initial_state i c) ! k)) = BillOpen \<and>
         \<not> ((BStatus (bill (loop_states ss (initial_state i c) ! k)) = BillCharging \<or>
              BStatus (bill (loop_states ss (initial_state i c) ! k)) = BillCanceled) \<and>
             BStatus (bill (loop_states ss (initial_state i c) ! Suc k)) = BillExpired)) \<and>
      (timer_canceled (loop_states ss (initial_state i c) ! k) \<longleftrightarrow>
         BStatus (bill (loop_states ss (initial_state i c) ! k)) = BillCharging \<or>
         BStatus (bill (loop_states ss (initial_state i c) ! k)) = BillCanceled) \<and>
      (timer_canceled (loop_states ss (initial_state i c) ! k) \<longrightarrow>
         Suc k = length (loop_states ss (initial_state i c)) \<and>
         last (actions (loop_states ss (initial_state i c) ! k)) = CalledCancelTimer \<and>
         CalledExpire \<notin> set (actions (loop_states ss (initial_state i c) ! k)))) \<and>
   (\<forall>s. event_loop ss (initial_state i c) = Some s \<longrightarrow>
      s = last (loop_states ss (initial_state i c)) \<and>
      (BStatus (bill s) = BillCharging \<or> BStatus (bill s) = BillCanceled \<or>
       BStatus (bill s) = BillExpired) \<and>
      (BStatus (bill s) = BillExpired \<longleftrightarrow> CalledExpire \<in> set (actions s)) \<and>
      (BStatus (bill s) = BillExpired \<longleftrightarrow> \<not> timer_canceled s) \<and>
      (timer_canceled s \<longrightarrow> BStatus (final_bill (after_loop env (bill s))) \<noteq> BillExpired))"
proof (intro conjI allI impI)
  fix k
  let ?tr = "loop_states ss (initial_state i c)"
  assume k: "k < length ?tr"
  then have inv: "loop_inv (?tr ! k)"
    using loop_states_inv [OF initial_state_inv] nth_mem by blast
  {
    assume "Suc k < length ?tr"
    then show op: "BStatus (bill (?tr ! k)) = BillOpen"
      by (rule loop_states_open_before_last)
    then show "\<not> ((BStatus (bill (?tr ! k)) = BillCharging \<or>
              BStatus (bill (?tr ! k)) = BillCanceled) \<and>
             BStatus (bill (?tr ! Suc k)) = BillExpired)"
      by (simp add: bill_status_neq)
  }
  show "timer_canceled (?tr ! k) \<longleftrightarrow>
         BStatus (bill (?tr ! k)) = BillCharging \<or> BStatus (bill (?tr ! k)) = BillCanceled"
    using inv by (simp add: loop_inv_def)
  {
    assume tc: "timer_canceled (?tr ! k)"
    then have "BStatus (bill (?tr ! k)) \<noteq> BillOpen"
      using inv by (auto simp: loop_inv_def bill_status_neq)
    then have "\<not> Suc k < length ?tr"
      using loop_states_open_before_last by blast
    then show "Suc k = length ?tr" using k by simp
    from tc inv show "last (actions (?tr ! k)) = CalledCancelTimer"
      by (auto simp: loop_inv_def)
    from tc inv show "CalledExpire \<notin> set (actions (?tr ! k))"
      by (auto simp: loop_inv_def bill_status_neq)
  }
next
  fix s
  let ?tr = "loop_states ss (initial_state i c)"
  assume e: "event_loop ss (initial_state i c) = Some s"
  then have l: "s = last ?tr" and no: "BStatus (bill s) \<noteq> BillOpen"
    using event_loop_last by blast+
  from l show "s = last ?tr" .
  have "s \<in> set ?tr" using l loop_states_nonempty by simp
  then have inv: "loop_inv s" using loop_states_inv [OF initial_state_inv] by blast
  show "BStatus (bill s) = BillCharging \<or> BStatus (bill s) = BillCanceled \<or>
       BStatus (bill s) = BillExpired"
    using inv no by (auto simp: loop_inv_def)
  show "BStatus (bill s) = BillExpired \<longleftrightarrow> CalledExpire \<in> set (actions s)"
    using inv by (auto simp: loop_inv_def)
  show "BStatus (bill s) = BillExpired \<longleftrightarrow> \<not> timer_canceled s"
    using inv no by (auto simp: loop_inv_def bill_status_neq)
  {
    assume "timer_canceled s"
    then have "BStatus (bill s) = BillCharging \<or> BStatus (bill s) = BillCanceled"
      using inv by (simp add: loop_inv_def)
    then show "BStatus (final_bill (after_loop env (bill s))) \<noteq> BillExpired"
      by (auto simp: after_loop_def charging_def resolve_def Let_def bill_status_neq)
  }
qed

theorem no_expire_after_leaving_open_witness:
  "loop_states [AddLineItemSignal (item ''a1'' ''Book'' 1500 []), ChargeBillSignal, TimerFired,
                CancelBillSignal] (initial_state ''bill-1'' ''USD'')
     = [initial_state ''bill-1'' ''USD'',
        \<lparr>bill = a_bill BillOpen [item ''a1'' ''Book'' 1500 ItemPending] 1500,
         timer_canceled = False, actions = [CalledAddItem (item ''a1'' ''Book'' 1500 [])]\<rparr>,
        \<lparr>bill = a_bill BillCharging [item ''a1'' ''Book'' 1500 ItemPending] 1500,
         timer_canceled = True,
         actions = [CalledAddItem (item ''a1'' ''Book'' 1500 []), CalledBeginCharge,
                    CalledCancelTimer]\<rparr>] \<and>
   event_loop [AddLineItemSignal (item ''a1'' ''Book'' 1500 []), ChargeBillSignal, TimerFired,
               CancelBillSignal] (initial_state ''bill-1'' ''USD'')
     = Some \<lparr>bill = a_bill BillCharging [item ''a1'' ''Book'' 1500 ItemPending] 1500,
             timer_canceled = True,
             actions = [CalledAddItem (item ''a1'' ''Book'' 1500 []), CalledBeginCharge,
                        CalledCancelTimer]\<rparr> \<and>
   BStatus (final_bill (after_loop simulated
       (a_bill BillCharging [item ''a1'' ''Book'' 1500 ItemPending] 1500))) \<noteq> BillExpired"
  using
    no_expire_after_leaving_open [where
      ss = "[AddLineItemSignal (item ''a1'' ''Book'' 1500 []), ChargeBillSignal, TimerFired,
             CancelBillSignal]" and i = "''bill-1''" and c = "''USD''" and env = simulated]
  by (simp add: item_def a_bill_def new_bill_def initial_state_def AddItem_def BeginCharge_def
      PendingCount_def bill_status_neq item_status_neq)

section \<open>Facts about charging and resolution\<close>

lemma count_failed_filter:
  "count_failed its = length (filter (\<lambda>it. Status it = ItemFailed) its)"
  by (induction its) auto

lemma failed_ids_filter:
  "failed_ids its = map ID (filter (\<lambda>it. Status it = ItemFailed) its)"
  by (induction its) auto

lemma refunded_items_map:
  "refunded_items its =
     map (\<lambda>it. if Status it = ItemCharged then it\<lparr>Status := ItemRefunded\<rparr> else it) its"
  by (induction its) auto

lemma refunded_items_failed:
  "filter (\<lambda>it. Status it = ItemFailed) (refunded_items its)
     = filter (\<lambda>it. Status it = ItemFailed) its"
  by (induction its) (auto simp: item_status_neq)

lemma refund_calls_activities:
  "map fst (refund_calls env k its)
     = map RefundLineItemActivity (filter (\<lambda>it. Status it = ItemCharged) its)"
  by (induction its arbitrary: k) auto

lemma charge_calls_activities:
  "map fst (charge_calls env k its)
     = map ChargeLineItemActivity (filter (\<lambda>it. Status it = ItemPending) its)"
  by (induction its arbitrary: k) auto

lemma charged_items_length: "length (charged_items env k its) = length its"
  by (induction its arbitrary: k) auto

lemma count_failed_all:
  "count_failed its = length its \<longleftrightarrow> (\<forall>it \<in> set its. Status it = ItemFailed)"
proof (induction its)
  case Nil
  then show ?case by simp
next
  case (Cons it its)
  have "count_failed its \<le> length its" by (simp add: count_failed_filter)
  then show ?case using Cons by auto
qed

lemma count_failed_none:
  "count_failed its = 0 \<longleftrightarrow> (\<forall>it \<in> set its. Status it \<noteq> ItemFailed)"
  by (induction its) auto

text \<open>
  \<^bold>\<open>C1.\<close>  For any bill and any outcomes of the activities: when the charge fan-out
  leaves at least one item Failed and at least one item Charged, the workflow starts
  one refund per Charged item (after the charges, and nothing else), leaves every
  such item Refunded and every other item as it is, sets the bill to Compensated and
  returns an application error of type \<open>ChargeCompensated\<close> whose details are the
  identifiers of the items the fan-out left Failed, in order; those items are still the
  Failed items of the final bill.
\<close>

theorem partial_failure_is_compensated:
  "(\<exists>it \<in> set (Items (charge_fanout env b)). Status it = ItemFailed) \<and>
   (\<exists>it \<in> set (Items (charge_fanout env b)). Status it = ItemCharged) \<longrightarrow>
     BStatus (final_bill (charging env b)) = BillCompensated \<and>
     Items (final_bill (charging env b))
       = map (\<lambda>it. if Status it = ItemCharged then it\<lparr>Status := ItemRefunded\<rparr> else it)
           (Items (charge_fanout env b)) \<and>
     map fst (calls (charging env b))
       = map ChargeLineItemActivity (filter (\<lambda>it. Status it = ItemPending) (Items b)) @
         map RefundLineItemActivity
           (filter (\<lambda>it. Status it = ItemCharged) (Items (charge_fanout env b))) \<and>
     error (charging env b)
       = Some (ApplicationError
           (''refunded '' @
            show_nat (length (filter (\<lambda>it. Status it = ItemCharged) (Items (charge_fanout env b)))) @
            '' items after '' @
            show_nat (length (filter (\<lambda>it. Status it = ItemFailed) (Items (charge_fanout env b)))) @
            '' failures'')
           ''ChargeCompensated''
           (map ID (filter (\<lambda>it. Status it = ItemFailed) (Items (charge_fanout env b))))
           False) \<and>
     filter (\<lambda>it. Status it = ItemFailed) (Items (final_bill (charging env b)))
       = filter (\<lambda>it. Status it = ItemFailed) (Items (charge_fanout env b))"
proof (intro impI)
  let ?its = "Items (charge_fanout env b)"
  assume h: "(\<exists>it \<in> set ?its. Status it = ItemFailed) \<and> (\<exists>it \<in> set ?its. Status it = ItemCharged)"
  then obtain ch where ch: "ch \<in> set ?its" "Status ch = ItemCharged" by blast
  have "ItemCharged \<noteq> ItemFailed" by (simp add: item_status_neq)
  with ch have "\<not> (\<forall>it \<in> set ?its. Status it = ItemFailed)"
    by metis
  then have n1: "count_failed ?its \<noteq> length ?its" by (simp add: count_failed_all)
  have n2: "count_failed ?its \<noteq> 0" using h by (simp add: count_failed_none)
  have r: "resolve env (charge_fanout env b) =
     \<lparr>final_bill = (charge_fanout env b)\<lparr>Items := refunded_items ?its, BStatus := BillCompensated\<rparr>,
      error = Some (ApplicationError
                    (''refunded '' @ show_nat (length (refund_calls env 0 ?its)) @
                     '' items after '' @ show_nat (count_failed ?its) @ '' failures'')
                    ''ChargeCompensated'' (failed_ids (refunded_items ?its)) False),
      calls = refund_calls env 0 ?its\<rparr>"
    using n1 n2 by (simp add: resolve_def Let_def)
  have len: "length (refund_calls env 0 ?its) = length (filter (\<lambda>it. Status it = ItemCharged) ?its)"
    using refund_calls_activities [of env 0 ?its, THEN arg_cong, of length] by simp
  show "BStatus (final_bill (charging env b)) = BillCompensated \<and>
     Items (final_bill (charging env b))
       = map (\<lambda>it. if Status it = ItemCharged then it\<lparr>Status := ItemRefunded\<rparr> else it) ?its \<and>
     map fst (calls (charging env b))
       = map ChargeLineItemActivity (filter (\<lambda>it. Status it = ItemPending) (Items b)) @
         map RefundLineItemActivity (filter (\<lambda>it. Status it = ItemCharged) ?its) \<and>
     error (charging env b)
       = Some (ApplicationError
           (''refunded '' @
            show_nat (length (filter (\<lambda>it. Status it = ItemCharged) ?its)) @
            '' items after '' @
            show_nat (length (filter (\<lambda>it. Status it = ItemFailed) ?its)) @
            '' failures'')
           ''ChargeCompensated''
           (map ID (filter (\<lambda>it. Status it = ItemFailed) ?its))
           False) \<and>
     filter (\<lambda>it. Status it = ItemFailed) (Items (final_bill (charging env b)))
       = filter (\<lambda>it. Status it = ItemFailed) ?its"
    unfolding charging_def Let_def r
    by (simp add: refunded_items_map [symmetric] refund_calls_activities charge_calls_activities
        len count_failed_filter failed_ids_filter refunded_items_failed)
qed

text \<open>
  The two texts of the resolution step agree on the final bill and on the returned
  error, and on the activities started apart from the credit.
\<close>

lemma is_credit_simps:
  "is_credit (CreditAccountActivity a cur, e)"
  "\<not> is_credit (RefundLineItemActivity it, e)"
  "\<not> is_credit (ChargeLineItemActivity it, e)"
  by (simp_all add: is_credit_def)

lemma refund_calls_no_credit: "filter (\<lambda>c. \<not> is_credit c) (refund_calls env k its) = refund_calls env k its"
  by (induction its arbitrary: k) (auto simp: is_credit_simps)

lemma resolve_versions_agree:
  "final_bill (resolve_without_credit env b) = final_bill (resolve env b) \<and>
   error (resolve_without_credit env b) = error (resolve env b) \<and>
   calls (resolve_without_credit env b) = filter (\<lambda>c. \<not> is_credit c) (calls (resolve env b))"
  by (simp add: resolve_def resolve_without_credit_def Let_def is_credit_simps
      refund_calls_no_credit)

theorem partial_failure_is_compensated_witness:
  "charging simulated
     (a_bill BillCharging
        [item ''ok'' ''Book'' 100 ItemPending, item ''bad'' ''FAIL'' 50 ItemPending] 150)
   = \<lparr>final_bill = a_bill BillCompensated
        [item ''ok'' ''Book'' 100 ItemRefunded, item ''bad'' ''FAIL'' 50 ItemFailed] 150,
      error = Some (ApplicationError ''refunded 1 items after 1 failures''
                ''ChargeCompensated'' [''bad''] False),
      calls = [(ChargeLineItemActivity (item ''ok'' ''Book'' 100 ItemPending), False),
               (ChargeLineItemActivity (item ''bad'' ''FAIL'' 50 ItemPending), True),
               (RefundLineItemActivity (item ''ok'' ''Book'' 100 ItemCharged), False)]\<rparr>"
  using partial_failure_is_compensated [of simulated
      "a_bill BillCharging
        [item ''ok'' ''Book'' 100 ItemPending, item ''bad'' ''FAIL'' 50 ItemPending] 150"]
  by (simp add: charging_def resolve_def charge_fanout_def simulated_def a_bill_def item_def
      item_status_neq Let_def)

text \<open>
  \<^bold>\<open>C2.\<close>  For any bill and any outcomes of the activities: when the charge fan-out
  leaves every item Failed, the workflow sets the bill to Failed, leaves the items as
  the fan-out left them, starts no activity but the charges (no refund, no credit),
  and returns an application error of type \<open>ChargeFailed\<close> whose details are the
  identifiers of all items, which are the failed ones; that type is not
  \<open>ChargeCompensated\<close>.  This holds for an empty item list too, which the loop never
  hands to the charging phase.
\<close>

theorem all_failed_is_failed:
  "(\<forall>it \<in> set (Items (charge_fanout env b)). Status it = ItemFailed) \<longrightarrow>
     BStatus (final_bill (charging env b)) = BillFailed \<and>
     Items (final_bill (charging env b)) = Items (charge_fanout env b) \<and>
     map fst (calls (charging env b))
       = map ChargeLineItemActivity (filter (\<lambda>it. Status it = ItemPending) (Items b)) \<and>
     (\<forall>c \<in> set (calls (charging env b)). \<forall>it. fst c \<noteq> RefundLineItemActivity it) \<and>
     error (charging env b)
       = Some (ApplicationError
           (show_nat (length (Items b)) @ '' items failed: '' @
            show_strings (map ID (Items (charge_fanout env b))))
           ''ChargeFailed'' (map ID (Items (charge_fanout env b))) False) \<and>
     map ID (Items (charge_fanout env b))
       = map ID (filter (\<lambda>it. Status it = ItemFailed) (Items (charge_fanout env b))) \<and>
     (\<forall>e. error (charging env b) = Some e \<longrightarrow>
        err_type e = ''ChargeFailed'' \<and> err_type e \<noteq> ''ChargeCompensated'')"
proof (intro impI)
  let ?its = "Items (charge_fanout env b)"
  assume h: "\<forall>it \<in> set ?its. Status it = ItemFailed"
  then have n: "count_failed ?its = length ?its" by (simp add: count_failed_all)
  have len: "length ?its = length (Items b)"
    by (simp add: charge_fanout_def charged_items_length)
  have r: "resolve env (charge_fanout env b) =
     \<lparr>final_bill = (charge_fanout env b)\<lparr>BStatus := BillFailed\<rparr>,
      error = Some (ApplicationError
                (show_nat (length (Items b)) @ '' items failed: '' @ show_strings (map ID ?its))
                ''ChargeFailed'' (map ID ?its) False),
      calls = []\<rparr>"
    using n len by (simp add: resolve_def Let_def)
  have f: "filter (\<lambda>it. Status it = ItemFailed) ?its = ?its" using h by simp
  have c: "\<forall>c \<in> set (charge_calls env 0 (Items b)). \<forall>it. fst c \<noteq> RefundLineItemActivity it"
  proof
    fix c assume "c \<in> set (charge_calls env 0 (Items b))"
    then have "fst c \<in> set (map fst (charge_calls env 0 (Items b)))" by simp
    then show "\<forall>it. fst c \<noteq> RefundLineItemActivity it"
      unfolding charge_calls_activities by auto
  qed
  show "BStatus (final_bill (charging env b)) = BillFailed \<and>
     Items (final_bill (charging env b)) = ?its \<and>
     map fst (calls (charging env b))
       = map ChargeLineItemActivity (filter (\<lambda>it. Status it = ItemPending) (Items b)) \<and>
     (\<forall>c \<in> set (calls (charging env b)). \<forall>it. fst c \<noteq> RefundLineItemActivity it) \<and>
     error (charging env b)
       = Some (ApplicationError
           (show_nat (length (Items b)) @ '' items failed: '' @ show_strings (map ID ?its))
           ''ChargeFailed'' (map ID ?its) False) \<and>
     map ID ?its = map ID (filter (\<lambda>it. Status it = ItemFailed) ?its) \<and>
     (\<forall>e. error (charging env b) = Some e \<longrightarrow>
        err_type e = ''ChargeFailed'' \<and> err_type e \<noteq> ''ChargeCompensated'')"
    unfolding charging_def Let_def r using c
    by (simp add: charge_calls_activities f)
qed

theorem all_failed_is_failed_witness:
  "charging simulated
     (a_bill BillCharging
        [item ''a1'' ''FAIL'' 100 ItemPending, item ''b2'' ''FAIL'' 200 ItemPending] 300)
   = \<lparr>final_bill = a_bill BillFailed
        [item ''a1'' ''FAIL'' 100 ItemFailed, item ''b2'' ''FAIL'' 200 ItemFailed] 300,
      error = Some (ApplicationError ''2 items failed: [a1 b2]'' ''ChargeFailed''
                [''a1'', ''b2''] False),
      calls = [(ChargeLineItemActivity (item ''a1'' ''FAIL'' 100 ItemPending), True),
               (ChargeLineItemActivity (item ''b2'' ''FAIL'' 200 ItemPending), True)]\<rparr>"
  using all_failed_is_failed [of simulated
      "a_bill BillCharging
        [item ''a1'' ''FAIL'' 100 ItemPending, item ''b2'' ''FAIL'' 200 ItemPending] 300"]
  by (simp add: charging_def resolve_def charge_fanout_def simulated_def a_bill_def item_def
      item_status_neq Let_def show_strings_def)

lemma count_pending_nonempty: "count_pending its \<noteq> 0 \<Longrightarrow> its \<noteq> []"
  by (cases its) auto

lemma aggregate_call_charging_nonempty:
  assumes "BStatus b = BillCharging \<longrightarrow> Items b \<noteq> []"
    and "BStatus (snd (aggregate_call x b)) = BillCharging"
  shows "Items (snd (aggregate_call x b)) \<noteq> []"
proof (cases x)
  case (AddLineItemSignal li)
  then show ?thesis using assms
    by (auto simp: AddItem_def bill_status_neq split: if_splits)
next
  case ChargeBillSignal
  then show ?thesis using assms
    by (auto simp: BeginCharge_def PendingCount_def bill_status_neq split: if_splits)
next
  case CancelBillSignal
  then show ?thesis using assms
    by (auto simp: Cancel_def bill_status_neq split: if_splits)
next
  case TimerFired
  then show ?thesis using assms by (simp add: Expire_def bill_status_neq)
qed

lemma run_calls_charging_nonempty:
  "BStatus b = BillCharging \<longrightarrow> Items b \<noteq> [] \<Longrightarrow>
   BStatus (run_calls xs b) = BillCharging \<Longrightarrow> Items (run_calls xs b) \<noteq> []"
proof (induction xs arbitrary: b)
  case Nil
  then show ?case by simp
next
  case (Cons x xs)
  have "BStatus (snd (aggregate_call x b)) = BillCharging \<longrightarrow>
          Items (snd (aggregate_call x b)) \<noteq> []"
    using aggregate_call_charging_nonempty [OF Cons.prems(1)] by blast
  then show ?case using Cons.IH Cons.prems(2) by simp
qed

lemma aggregate_call_Currency: "Currency (snd (aggregate_call x b)) = Currency b"
  by (cases x) (simp_all add: AddItem_def BeginCharge_def Cancel_def Expire_def)

lemma run_calls_Currency: "Currency (run_calls xs b) = Currency b"
  by (induction xs arbitrary: b) (simp_all add: aggregate_call_Currency)

lemma charged_items_credit_error:
  "charged_items (env\<lparr>credit_error := f\<rparr>) k its = charged_items env k its"
  by (induction its arbitrary: k) auto

lemma settled_phase:
  assumes "Items b \<noteq> []" "\<forall>it \<in> set (Items (charge_fanout env b)). Status it \<noteq> ItemFailed"
  shows "resolve env (charge_fanout env b) =
     \<lparr>final_bill = (charge_fanout env b)\<lparr>BStatus := BillSettled\<rparr>, error = None,
      calls = [(CreditAccountActivity (Total b) (Currency b),
                credit_error env (Total b) (Currency b))]\<rparr>"
proof -
  let ?its = "Items (charge_fanout env b)"
  have z: "count_failed ?its = 0" using assms(2) by (simp add: count_failed_none)
  have "length ?its = length (Items b)" by (simp add: charge_fanout_def charged_items_length)
  then have "length ?its \<noteq> 0" using assms(1) by simp
  then have "count_failed ?its \<noteq> length ?its" using z by simp
  then show ?thesis using z by (simp add: resolve_def Let_def) (simp add: charge_fanout_def)
qed

text \<open>
  \<^bold>\<open>C3.\<close>  For any bill with at least one item and any outcomes of the activities: when
  the charge fan-out leaves no item Failed, the workflow sets the bill to Settled,
  keeps items and total, returns no error, and starts, after one charge per Pending
  item, exactly one \<open>CreditAccountActivity\<close>, for the bill's total and currency; the
  outcome of that credit is recorded with the call and changes neither the final bill
  nor the returned error, and no charge follows it.  A bill that the event loop hands
  to the charging phase always has an item, since \<open>BeginCharge\<close> refuses a bill without
  a Pending one: for every run of the workflow from a new bill that reaches Charging
  and whose fan-out leaves no item Failed, the workflow returns that outcome.
\<close>

theorem no_failure_is_settled:
  "(Items b \<noteq> [] \<and> (\<forall>it \<in> set (Items (charge_fanout env b)). Status it \<noteq> ItemFailed) \<longrightarrow>
      BStatus (final_bill (charging env b)) = BillSettled \<and>
      Items (final_bill (charging env b)) = Items (charge_fanout env b) \<and>
      Total (final_bill (charging env b)) = Total b \<and>
      error (charging env b) = None \<and>
      calls (charging env b)
        = charge_calls env 0 (Items b) @
          [(CreditAccountActivity (Total b) (Currency b), credit_error env (Total b) (Currency b))] \<and>
      map fst (charge_calls env 0 (Items b))
        = map ChargeLineItemActivity (filter (\<lambda>it. Status it = ItemPending) (Items b)) \<and>
      final_bill (charging (env\<lparr>credit_error := f\<rparr>) b) = final_bill (charging env b) \<and>
      error (charging (env\<lparr>credit_error := f\<rparr>) b) = None) \<and>
   (set_query_handler_error env = None \<and>
    event_loop ss (initial_state i c) = Some s \<and> BStatus (bill s) = BillCharging \<and>
    (\<forall>it \<in> set (Items (charge_fanout env (bill s))). Status it \<noteq> ItemFailed) \<longrightarrow>
      BillWorkflow env i c ss = Some (charging env (bill s)) \<and>
      Items (bill s) \<noteq> [] \<and>
      BStatus (final_bill (charging env (bill s))) = BillSettled \<and>
      error (charging env (bill s)) = None \<and>
      calls (charging env (bill s))
        = charge_calls env 0 (Items (bill s)) @
          [(CreditAccountActivity (Total (bill s)) c, credit_error env (Total (bill s)) c)])"
proof (intro conjI impI)
  assume h: "Items b \<noteq> [] \<and> (\<forall>it \<in> set (Items (charge_fanout env b)). Status it \<noteq> ItemFailed)"
  then have r: "resolve env (charge_fanout env b) =
     \<lparr>final_bill = (charge_fanout env b)\<lparr>BStatus := BillSettled\<rparr>, error = None,
      calls = [(CreditAccountActivity (Total b) (Currency b),
                credit_error env (Total b) (Currency b))]\<rparr>"
    using settled_phase by blast
  have fo: "charge_fanout (env\<lparr>credit_error := f\<rparr>) b = charge_fanout env b"
    by (simp add: charge_fanout_def charged_items_credit_error)
  have r': "resolve (env\<lparr>credit_error := f\<rparr>) (charge_fanout (env\<lparr>credit_error := f\<rparr>) b) =
     \<lparr>final_bill = (charge_fanout env b)\<lparr>BStatus := BillSettled\<rparr>, error = None,
      calls = [(CreditAccountActivity (Total b) (Currency b), f (Total b) (Currency b))]\<rparr>"
    using settled_phase [of b "env\<lparr>credit_error := f\<rparr>"] h by (simp add: fo)
  show "BStatus (final_bill (charging env b)) = BillSettled"
    "Items (final_bill (charging env b)) = Items (charge_fanout env b)"
    "error (charging env b) = None"
    "calls (charging env b)
        = charge_calls env 0 (Items b) @
          [(CreditAccountActivity (Total b) (Currency b), credit_error env (Total b) (Currency b))]"
    unfolding charging_def Let_def r by simp_all
  show "Total (final_bill (charging env b)) = Total b" by (rule charging_Total)
  show "map fst (charge_calls env 0 (Items b))
        = map ChargeLineItemActivity (filter (\<lambda>it. Status it = ItemPending) (Items b))"
    by (rule charge_calls_activities)
  show "final_bill (charging (env\<lparr>credit_error := f\<rparr>) b) = final_bill (charging env b)"
    "error (charging (env\<lparr>credit_error := f\<rparr>) b) = None"
    unfolding charging_def Let_def r r' by simp_all
next
  assume h: "set_query_handler_error env = None \<and>
    event_loop ss (initial_state i c) = Some s \<and> BStatus (bill s) = BillCharging \<and>
    (\<forall>it \<in> set (Items (charge_fanout env (bill s))). Status it \<noteq> ItemFailed)"
  then obtain xs where xs: "bill s = run_calls xs (new_bill i c)"
    using event_loop_run_calls [of ss "initial_state i c" s] by (auto simp: initial_state_def)
  have "BStatus (new_bill i c) = BillCharging \<longrightarrow> Items (new_bill i c) \<noteq> []"
    by (simp add: new_bill_def bill_status_neq)
  then show ne: "Items (bill s) \<noteq> []"
    using run_calls_charging_nonempty [of "new_bill i c" xs] h xs by simp
  have cur: "Currency (bill s) = c" by (simp add: xs run_calls_Currency) (simp add: new_bill_def)
  show "BillWorkflow env i c ss = Some (charging env (bill s))"
    using h by (simp add: BillWorkflow_def after_loop_def bill_status_neq)
  have r: "resolve env (charge_fanout env (bill s)) =
     \<lparr>final_bill = (charge_fanout env (bill s))\<lparr>BStatus := BillSettled\<rparr>, error = None,
      calls = [(CreditAccountActivity (Total (bill s)) c, credit_error env (Total (bill s)) c)]\<rparr>"
    using settled_phase [OF ne] h cur by simp
  show "BStatus (final_bill (charging env (bill s))) = BillSettled"
    "error (charging env (bill s)) = None"
    "calls (charging env (bill s))
        = charge_calls env 0 (Items (bill s)) @
          [(CreditAccountActivity (Total (bill s)) c, credit_error env (Total (bill s)) c)]"
    unfolding charging_def Let_def r by simp_all
qed

theorem no_failure_is_settled_witness:
  "BillWorkflow (simulated\<lparr>credit_error := (\<lambda>amount cur. True)\<rparr>) ''bill-1'' ''USD''
     [AddLineItemSignal (item ''a1'' ''Book'' 1500 []),
      AddLineItemSignal (item ''b2'' ''Pen'' 500 []), ChargeBillSignal]
   = Some \<lparr>final_bill = a_bill BillSettled
              [item ''a1'' ''Book'' 1500 ItemCharged, item ''b2'' ''Pen'' 500 ItemCharged] 2000,
           error = None,
           calls = [(ChargeLineItemActivity (item ''a1'' ''Book'' 1500 ItemPending), False),
                    (ChargeLineItemActivity (item ''b2'' ''Pen'' 500 ItemPending), False),
                    (CreditAccountActivity 2000 ''USD'', True)]\<rparr>"
proof -
  let ?env = "simulated\<lparr>credit_error := (\<lambda>amount cur. True)\<rparr>"
  let ?b = "a_bill BillCharging
              [item ''a1'' ''Book'' 1500 ItemPending, item ''b2'' ''Pen'' 500 ItemPending] 2000"
  let ?s = "\<lparr>bill = ?b, timer_canceled = True,
             actions = [CalledAddItem (item ''a1'' ''Book'' 1500 []),
                        CalledAddItem (item ''b2'' ''Pen'' 500 []),
                        CalledBeginCharge, CalledCancelTimer]\<rparr>"
  have q: "set_query_handler_error ?env = None" by (simp add: simulated_def)
  have l: "event_loop [AddLineItemSignal (item ''a1'' ''Book'' 1500 []),
      AddLineItemSignal (item ''b2'' ''Pen'' 500 []), ChargeBillSignal]
      (initial_state ''bill-1'' ''USD'') = Some ?s"
    by (simp add: item_def a_bill_def new_bill_def initial_state_def AddItem_def BeginCharge_def
      PendingCount_def bill_status_neq item_status_neq)
  have st: "BStatus (bill ?s) = BillCharging" by (simp add: a_bill_def)
  have nf: "\<forall>it \<in> set (Items (charge_fanout ?env (bill ?s))). Status it \<noteq> ItemFailed"
    by (simp add: charge_fanout_def simulated_def a_bill_def item_def item_status_neq)
  have ne: "Items ?b \<noteq> []" by (simp add: a_bill_def)
  show ?thesis
    using q l st nf ne
      no_failure_is_settled [where env = ?env and ss = "[AddLineItemSignal (item ''a1'' ''Book'' 1500 []),
        AddLineItemSignal (item ''b2'' ''Pen'' 500 []), ChargeBillSignal]"
        and i = "''bill-1''" and c = "''USD''" and s = ?s and b = ?b and f = "\<lambda>amount cur. False"]
    by (simp add: charging_def resolve_def charge_fanout_def simulated_def a_bill_def item_def
      item_status_neq Let_def)
qed

end
